theory Spec2Isabelle
  imports Complex_Main "HOL-Library.AList"
begin

section \<open>Values of the numeric engine\<close>

text \<open>
  The module \<^verbatim>\<open>prysm/qpoly.py\<close> computes with Python numbers and with arrays of the
  numeric engine \<^verbatim>\<open>e\<close> (numpy). Floating-point numbers are idealised as reals. A value
  is either a plain number (\<open>Scalar\<close>: the Python literal \<^verbatim>\<open>2\<close> returned by
  \<^verbatim>\<open>qbfs_recurrence_P(0, x)\<close> is one) or an array, kept as the list of its elements in
  row-major order (\<open>Array\<close>). Arithmetic between a number and an array broadcasts the
  number; arithmetic between two arrays is elementwise. The arrays this module combines
  stem from one coordinate grid and have its number of elements (lemmas \<open>size_P\<close>
  and \<open>fits_ops\<close> below); the engine would refuse arrays of different shapes, which
  is outside what is modelled. Division and square root are the total functions of the
  reals.

  Order indices and sample counts are natural numbers: the data model of the
  specification restricts them to non-negative integers.
\<close>

datatype ndv = Scalar real | Array "real list"

fun lift2 :: "(real \<Rightarrow> real \<Rightarrow> real) \<Rightarrow> ndv \<Rightarrow> ndv \<Rightarrow> ndv" where
  "lift2 f (Scalar a) (Scalar b) = Scalar (f a b)"
| "lift2 f (Scalar a) (Array ys) = Array (map (f a) ys)"
| "lift2 f (Array xs) (Scalar b) = Array (map (\<lambda>x. f x b) xs)"
| "lift2 f (Array xs) (Array ys) = Array (map2 f xs ys)"

instantiation ndv :: "{plus, minus, times, inverse}"
begin

definition plus_ndv :: "ndv \<Rightarrow> ndv \<Rightarrow> ndv" where
  "plus_ndv a b = lift2 (+) a b"

definition minus_ndv :: "ndv \<Rightarrow> ndv \<Rightarrow> ndv" where
  "minus_ndv a b = lift2 (-) a b"

definition times_ndv :: "ndv \<Rightarrow> ndv \<Rightarrow> ndv" where
  "times_ndv a b = lift2 (*) a b"

definition divide_ndv :: "ndv \<Rightarrow> ndv \<Rightarrow> ndv" where
  "divide_ndv a b = lift2 (/) a b"

definition inverse_ndv :: "ndv \<Rightarrow> ndv" where
  "inverse_ndv a = lift2 (/) (Scalar 1) a"

instance ..

end

text \<open>\<^verbatim>\<open>x ** k\<close> on an engine value: the elementwise power.\<close>

fun nd_pow :: "ndv \<Rightarrow> nat \<Rightarrow> ndv" where
  "nd_pow (Scalar a) k = Scalar (a ^ k)"
| "nd_pow (Array xs) k = Array (map (\<lambda>v. v ^ k) xs)"

text \<open>
  Modelled from the spec: the engine functions \<^verbatim>\<open>e.ones_like\<close> and \<^verbatim>\<open>e.zeros\<close> of
  \<^verbatim>\<open>prysm.mathops\<close>, which is not part of the sources at hand ("array of ones, same
  shape as x", "a zero array of shape (samples, samples)"). \<^verbatim>\<open>e.sqrt\<close> is only applied
  to numbers here and is the real square root.
\<close>

fun ones_like :: "ndv \<Rightarrow> ndv" where
  "ones_like (Scalar a) = Scalar 1"
| "ones_like (Array xs) = Array (replicate (length xs) 1)"

definition zeros :: "nat \<Rightarrow> nat \<Rightarrow> ndv" where
  "zeros rows cols = Array (replicate (rows * cols) 0)"

text \<open>The element of a value at a flat index, numbers being broadcast.\<close>

fun elem :: "ndv \<Rightarrow> nat \<Rightarrow> real" where
  "elem (Scalar a) i = a"
| "elem (Array xs) i = xs ! i"

text \<open>Two values of one shape: a number fits every shape.\<close>

fun fits :: "ndv \<Rightarrow> ndv \<Rightarrow> bool" where
  "fits (Scalar a) x = True"
| "fits (Array ys) (Scalar b) = False"
| "fits (Array ys) (Array xs) = (length ys = length xs)"

section \<open>Recursion constants of the Qbfs family\<close>

text \<open>
  \<^verbatim>\<open>g_qbfs\<close>, \<^verbatim>\<open>h_qbfs\<close> and \<^verbatim>\<open>f_qbfs\<close> call each other; \<^verbatim>\<open>lru_cache\<close> only memoises
  these pure functions. The argument of \<^verbatim>\<open>g_qbfs\<close> is n-1 and that of \<^verbatim>\<open>h_qbfs\<close> is
  n-2, as the source names them.
\<close>

fun g_qbfs :: "nat \<Rightarrow> real"
  and h_qbfs :: "nat \<Rightarrow> real"
  and f_qbfs :: "nat \<Rightarrow> real" where
  "g_qbfs 0 = - 1 / 2"
| "g_qbfs (Suc n_minus_2) =
     - (1 + g_qbfs n_minus_2 * h_qbfs n_minus_2) / f_qbfs (Suc n_minus_2)"
| "h_qbfs n_minus_2 =
     (let n = n_minus_2 + 2
      in - real n * (real n - 1) / (2 * f_qbfs n_minus_2))"
| "f_qbfs 0 = 2"
| "f_qbfs (Suc 0) = sqrt 19 / 2"
| "f_qbfs (Suc (Suc k)) =
     (let n = Suc (Suc k);
          term1 = real (n * (n + 1) + 3);
          term2 = (g_qbfs (n - 1)) ^ 2;
          term3 = (h_qbfs (n - 2)) ^ 2
      in sqrt (term1 - term2 - term3))"

section \<open>Polynomial recurrences\<close>

text \<open>
  The optional arguments of the source (\<^verbatim>\<open>Pnm1=None\<close>, ...) are options. A missing
  term is computed by the unmemoised recursion, exactly with the arguments the source
  passes on.
\<close>

fun qbfs_recurrence_P ::
  "nat \<Rightarrow> ndv \<Rightarrow> ndv option \<Rightarrow> ndv option \<Rightarrow> ndv option \<Rightarrow> ndv" where
  "qbfs_recurrence_P 0 x Pnm1 Pnm2 recursion_coef = Scalar 2"
| "qbfs_recurrence_P (Suc 0) x Pnm1 Pnm2 recursion_coef = Scalar 6 - Scalar 8 * x"
| "qbfs_recurrence_P (Suc (Suc k)) x Pnm1 Pnm2 recursion_coef =
     (let n = Suc (Suc k);
          Pnm1' = (case Pnm1 of None \<Rightarrow> qbfs_recurrence_P (n - 1) x None None None
                   | Some p \<Rightarrow> p);
          Pnm2' = (case Pnm2 of None \<Rightarrow> qbfs_recurrence_P (n - 2) x None None None
                   | Some p \<Rightarrow> p);
          recursion_coef' = (case recursion_coef of None \<Rightarrow> Scalar 2 - Scalar 4 * x
                   | Some c \<Rightarrow> c)
      in recursion_coef' * Pnm1' - Pnm2')"

fun qbfs_recurrence_Q ::
  "nat \<Rightarrow> ndv \<Rightarrow> ndv option \<Rightarrow> ndv option \<Rightarrow> ndv option \<Rightarrow> ndv option \<Rightarrow> ndv option
     \<Rightarrow> ndv option \<Rightarrow> ndv" where
  "qbfs_recurrence_Q 0 x Pn Pnm1 Pnm2 Qnm1 Qnm2 recursion_coef = ones_like x"
| "qbfs_recurrence_Q (Suc 0) x Pn Pnm1 Pnm2 Qnm1 Qnm2 recursion_coef =
     Scalar (1 / sqrt 19) * (Scalar 13 - Scalar 16 * x)"
| "qbfs_recurrence_Q (Suc (Suc k)) x Pn Pnm1 Pnm2 Qnm1 Qnm2 recursion_coef =
     (let n = Suc (Suc k);
          Pnm2' = (case Pnm2 of
                     None \<Rightarrow> qbfs_recurrence_P (n - 2) x None None recursion_coef
                   | Some p \<Rightarrow> p);
          Pnm1' = (case Pnm1 of
                     None \<Rightarrow> qbfs_recurrence_P (n - 1) x None (Some Pnm2') recursion_coef
                   | Some p \<Rightarrow> p);
          Pn' = (case Pn of
                     None \<Rightarrow> qbfs_recurrence_P n x (Some Pnm1') (Some Pnm2') recursion_coef
                   | Some p \<Rightarrow> p);
          Qnm2' = (case Qnm2 of
                     None \<Rightarrow> qbfs_recurrence_Q (n - 2) x (Some Pn') (Some Pnm1') (Some Pnm2')
                               None None recursion_coef
                   | Some q \<Rightarrow> q);
          Qnm1' = (case Qnm1 of
                     None \<Rightarrow> qbfs_recurrence_Q (n - 1) x (Some Pn') (Some Pnm1') (Some Pnm2')
                               None (Some Qnm2') recursion_coef
                   | Some q \<Rightarrow> q);
          term1 = Pn';
          term2 = Scalar (g_qbfs (n - 1)) * Qnm1';
          term3 = Scalar (h_qbfs (n - 2)) * Qnm2';
          numerator = term1 - term2 - term3;
          denominator = Scalar (f_qbfs n)
      in numerator / denominator)"

section \<open>Errors and dictionaries\<close>

text \<open>
  The exceptions this module can raise by itself. A Python \<^verbatim>\<open>dict\<close> is an association
  list with distinct keys in insertion order: reading is \<open>map_of\<close>, \<^verbatim>\<open>d[k] = v\<close> is
  \<open>AList.update\<close> (in place for a present key, at the end for a new one), and iterating
  the dict walks the keys in list order.
\<close>

datatype error = KeyError | AttributeError

fun getitem :: "('k \<times> 'v) list \<Rightarrow> 'k \<Rightarrow> error + 'v" where
  "getitem d k = (case map_of d k of None \<Rightarrow> Inl KeyError | Some v \<Rightarrow> Inr v)"

text \<open>The list comprehension \<^verbatim>\<open>[d[k] for k in ks]\<close>.\<close>

fun getitems :: "('k \<times> 'v) list \<Rightarrow> 'k list \<Rightarrow> error + 'v list" where
  "getitems d [] = Inr []"
| "getitems d (k # ks) =
     (case getitem d k of
        Inl e \<Rightarrow> Inl e
      | Inr v \<Rightarrow> (case getitems d ks of Inl e \<Rightarrow> Inl e | Inr vs \<Rightarrow> Inr (v # vs)))"

section \<open>The shape caches\<close>

text \<open>
  Both cache classes hold three dictionaries. The keys of \<^verbatim>\<open>Qs\<close> and \<^verbatim>\<open>Ps\<close> are the
  triples of \<^verbatim>\<open>make_key\<close>; the keys of \<^verbatim>\<open>grids\<close> are such triples without their first
  component. The grid provider \<^verbatim>\<open>make_rho_phi_grid\<close> of \<^verbatim>\<open>prysm.coordinates\<close> is not
  part of the sources at hand: it is a parameter \<open>mk\<close>, giving for a sample count and a
  radius the radial and the angular grid.
\<close>

type_synonym key = "nat \<times> nat \<times> real"

type_synonym grid_provider = "nat \<Rightarrow> real \<Rightarrow> real list \<times> real list"

record cache =
  Qs :: "(key \<times> ndv) list"
  Ps :: "(key \<times> ndv) list"
  grids :: "((nat \<times> real) \<times> ndv) list"

definition make_key :: "'m \<Rightarrow> nat \<Rightarrow> real \<Rightarrow> 'm \<times> nat \<times> real" where
  "make_key m samples rho_max = (m, samples, rho_max)"

subsection \<open>The Qbfs cache\<close>

definition QBFSCache_init :: cache where
  "QBFSCache_init = \<lparr>Qs = [], Ps = [], grids = []\<rparr>"

definition QBFSCache_clear :: "cache \<Rightarrow> cache" where
  "QBFSCache_clear c = c\<lparr>Qs := [], Ps := [], grids := []\<rparr>"

definition QBFSCache_get_grid :: "grid_provider \<Rightarrow> cache \<Rightarrow> nat \<Rightarrow> real \<Rightarrow> ndv \<times> cache" where
  "QBFSCache_get_grid mk c samples rho_max =
     (let key = snd (make_key (None :: nat option) samples rho_max)
      in case map_of (grids c) key of
           Some rho \<Rightarrow> (rho, c)
         | None \<Rightarrow>
             (let rho = Array (fst (mk samples rho_max));
                  rho = nd_pow rho 2
              in (rho, c\<lparr>grids := AList.update key rho (grids c)\<rparr>)))"

fun QBFSCache_get_PBFS :: "grid_provider \<Rightarrow> cache \<Rightarrow> nat \<Rightarrow> nat \<Rightarrow> real \<Rightarrow> ndv \<times> cache" where
  "QBFSCache_get_PBFS mk c m samples rho_max =
     (let key = make_key m samples rho_max
      in case map_of (Ps c) key of
           Some Pm \<Rightarrow> (Pm, c)
         | None \<Rightarrow>
             (case QBFSCache_get_grid mk c samples rho_max of (rho, c1) \<Rightarrow>
                if m > 2 then
                  (case QBFSCache_get_PBFS mk c1 (m - 2) samples rho_max of (Pnm2, c2) \<Rightarrow>
                   case QBFSCache_get_PBFS mk c2 (m - 1) samples rho_max of (Pnm1, c3) \<Rightarrow>
                     (let Pm = qbfs_recurrence_P m rho (Some Pnm1) (Some Pnm2) None
                      in (Pm, c3\<lparr>Ps := AList.update key Pm (Ps c3)\<rparr>)))
                else
                  (let Pm = qbfs_recurrence_P m rho None None None
                   in (Pm, c1\<lparr>Ps := AList.update key Pm (Ps c1)\<rparr>))))"

declare QBFSCache_get_PBFS.simps [simp del]

fun QBFSCache_get_QBFS :: "grid_provider \<Rightarrow> cache \<Rightarrow> nat \<Rightarrow> nat \<Rightarrow> real \<Rightarrow> ndv \<times> cache" where
  "QBFSCache_get_QBFS mk c m samples rho_max =
     (let key = make_key m samples rho_max
      in case map_of (Qs c) key of
           Some Qm \<Rightarrow> (Qm, c)
         | None \<Rightarrow>
             (case QBFSCache_get_grid mk c samples rho_max of (rho, c1) \<Rightarrow>
              case QBFSCache_get_PBFS mk c1 m samples rho_max of (Pm, c2) \<Rightarrow>
                if m > 2 then
                  (case QBFSCache_get_PBFS mk c2 (m - 2) samples rho_max of (Pnm2, c3) \<Rightarrow>
                   case QBFSCache_get_PBFS mk c3 (m - 1) samples rho_max of (Pnm1, c4) \<Rightarrow>
                   case QBFSCache_get_QBFS mk c4 (m - 2) samples rho_max of (Qnm2, c5) \<Rightarrow>
                   case QBFSCache_get_QBFS mk c5 (m - 1) samples rho_max of (Qnm1, c6) \<Rightarrow>
                     (let Qm = qbfs_recurrence_Q m rho (Some Pm) (Some Pnm1) (Some Pnm2)
                                 (Some Qnm1) (Some Qnm2) None
                      in (Qm, c6\<lparr>Qs := AList.update key Qm (Qs c6)\<rparr>)))
                else
                  (let Qm = qbfs_recurrence_Q m rho (Some Pm) None None None None None
                   in (Qm, c2\<lparr>Qs := AList.update key Qm (Qs c2)\<rparr>))))"

declare QBFSCache_get_QBFS.simps [simp del]

definition QBFSCache_call :: "grid_provider \<Rightarrow> cache \<Rightarrow> nat \<Rightarrow> nat \<Rightarrow> real \<Rightarrow> ndv \<times> cache" where
  "QBFSCache_call mk c m samples rho_max = QBFSCache_get_QBFS mk c m samples rho_max"

subsection \<open>The Qcon cache\<close>

definition QCONCache_init :: cache where
  "QCONCache_init = \<lparr>Qs = [], Ps = [], grids = []\<rparr>"

definition QCONCache_clear :: "cache \<Rightarrow> cache" where
  "QCONCache_clear c = c\<lparr>Qs := [], Ps := [], grids := []\<rparr>"

definition QCONCache_get_grid :: "grid_provider \<Rightarrow> cache \<Rightarrow> nat \<Rightarrow> real \<Rightarrow> ndv \<times> cache" where
  "QCONCache_get_grid mk c samples rho_max =
     (let key = snd (make_key (None :: nat option) samples rho_max)
      in case map_of (grids c) key of
           Some rho \<Rightarrow> (rho, c)
         | None \<Rightarrow>
             (let rho = Array (fst (mk samples rho_max));
                  rho = nd_pow rho 2;
                  rho = Scalar 2 * rho - Scalar 1
              in (rho, c\<lparr>grids := AList.update key rho (grids c)\<rparr>)))"

fun QCONCache_get_PBFS :: "grid_provider \<Rightarrow> cache \<Rightarrow> nat \<Rightarrow> nat \<Rightarrow> real \<Rightarrow> ndv \<times> cache" where
  "QCONCache_get_PBFS mk c m samples rho_max =
     (let key = make_key m samples rho_max
      in case map_of (Ps c) key of
           Some Pm \<Rightarrow> (Pm, c)
         | None \<Rightarrow>
             (case QCONCache_get_grid mk c samples rho_max of (rho, c1) \<Rightarrow>
                if m > 2 then
                  (case QCONCache_get_PBFS mk c1 (m - 2) samples rho_max of (Pnm2, c2) \<Rightarrow>
                   case QCONCache_get_PBFS mk c2 (m - 1) samples rho_max of (Pnm1, c3) \<Rightarrow>
                     (let Pm = qbfs_recurrence_P m rho (Some Pnm1) (Some Pnm2) None
                      in (Pm, c3\<lparr>Ps := AList.update key Pm (Ps c3)\<rparr>)))
                else
                  (let Pm = qbfs_recurrence_P m rho None None None
                   in (Pm, c1\<lparr>Ps := AList.update key Pm (Ps c1)\<rparr>))))"

declare QCONCache_get_PBFS.simps [simp del]

text \<open>
  \<^verbatim>\<open>QCONCache.get_QCON\<close> asks \<^verbatim>\<open>self\<close> for \<^verbatim>\<open>get_QBFS\<close>. The class defines
  \<^verbatim>\<open>get_QCON\<close>, \<^verbatim>\<open>get_PBFS\<close>, \<^verbatim>\<open>get_grid\<close>, \<^verbatim>\<open>__call__\<close>, \<^verbatim>\<open>make_key\<close>, \<^verbatim>\<open>clear\<close> and
  \<^verbatim>\<open>nbytes\<close> and inherits from \<^verbatim>\<open>object\<close> only, so the attribute lookup raises
  \<^verbatim>\<open>AttributeError\<close>, after the grid and the P terms have been stored.
\<close>

definition QCONCache_get_QCON ::
  "grid_provider \<Rightarrow> cache \<Rightarrow> nat \<Rightarrow> nat \<Rightarrow> real \<Rightarrow> (error + ndv) \<times> cache" where
  "QCONCache_get_QCON mk c m samples rho_max =
     (let key = make_key m samples rho_max
      in case map_of (Qs c) key of
           Some Qm \<Rightarrow> (Inr Qm, c)
         | None \<Rightarrow>
             (case QCONCache_get_grid mk c samples rho_max of (rho, c1) \<Rightarrow>
              case QCONCache_get_PBFS mk c1 m samples rho_max of (Pm, c2) \<Rightarrow>
                if m > 2 then
                  (case QCONCache_get_PBFS mk c2 (m - 2) samples rho_max of (Pnm2, c3) \<Rightarrow>
                   case QCONCache_get_PBFS mk c3 (m - 1) samples rho_max of (Pnm1, c4) \<Rightarrow>
                     (Inl AttributeError, c4))
                else
                  (let Qm = qbfs_recurrence_Q m rho (Some Pm) None None None None None
                   in (Inr Qm, c2\<lparr>Qs := AList.update key Qm (Qs c2)\<rparr>))))"

definition QCONCache_call ::
  "grid_provider \<Rightarrow> cache \<Rightarrow> nat \<Rightarrow> nat \<Rightarrow> real \<Rightarrow> (error + ndv) \<times> cache" where
  "QCONCache_call mk c m samples rho_max = QCONCache_get_QCON mk c m samples rho_max"

subsection \<open>The byte-size diagnostic\<close>

text \<open>
  The attribute \<^verbatim>\<open>nbytes\<close> of an array is its element count times the size of one
  element, \<open>itemsize\<close> (8 for double precision); a Python \<^verbatim>\<open>int\<close> has no such attribute.
  The property is the same text in both cache classes: a loop over the keys of \<^verbatim>\<open>Qs\<close>.
\<close>

fun ndv_nbytes :: "nat \<Rightarrow> ndv \<Rightarrow> error + nat" where
  "ndv_nbytes itemsize (Scalar a) = Inl AttributeError"
| "ndv_nbytes itemsize (Array xs) = Inr (length xs * itemsize)"

fun nbytes_loop :: "nat \<Rightarrow> cache \<Rightarrow> key list \<Rightarrow> nat \<Rightarrow> error + nat" where
  "nbytes_loop itemsize c [] n = Inr n"
| "nbytes_loop itemsize c (key # keys) n =
     (case getitem (Qs c) key of Inl e \<Rightarrow> Inl e | Inr q \<Rightarrow>
      case ndv_nbytes itemsize q of Inl e \<Rightarrow> Inl e | Inr b1 \<Rightarrow>
      case getitem (Ps c) key of Inl e \<Rightarrow> Inl e | Inr p \<Rightarrow>
      case ndv_nbytes itemsize p of Inl e \<Rightarrow> Inl e | Inr b2 \<Rightarrow>
      case getitem (grids c) (snd key) of Inl e \<Rightarrow> Inl e | Inr g \<Rightarrow>
      case ndv_nbytes itemsize g of Inl e \<Rightarrow> Inl e | Inr b3 \<Rightarrow>
        nbytes_loop itemsize c keys (n + b1 + b2 + b3))"

definition QBFSCache_nbytes :: "nat \<Rightarrow> cache \<Rightarrow> error + nat" where
  "QBFSCache_nbytes itemsize c = nbytes_loop itemsize c (map fst (Qs c)) 0"

definition QCONCache_nbytes :: "nat \<Rightarrow> cache \<Rightarrow> error + nat" where
  "QCONCache_nbytes itemsize c = nbytes_loop itemsize c (map fst (Qs c)) 0"

text \<open>
  The byte size in the specification's words, to compare \<^verbatim>\<open>nbytes\<close> with: the sum of
  the memory footprint of every array currently cached, each array of the three stores
  counted once. A stored number (the \<^verbatim>\<open>int\<close> 2 of order 0 in \<^verbatim>\<open>Ps\<close>) is no array.
\<close>

fun footprint :: "nat \<Rightarrow> ndv \<Rightarrow> nat" where
  "footprint itemsize (Scalar a) = 0"
| "footprint itemsize (Array xs) = length xs * itemsize"

definition byte_size_spec :: "nat \<Rightarrow> cache \<Rightarrow> nat" where
  "byte_size_spec itemsize c =
     sum_list (map (footprint itemsize \<circ> snd) (Qs c))
       + sum_list (map (footprint itemsize \<circ> snd) (Ps c))
       + sum_list (map (footprint itemsize \<circ> snd) (grids c))"

section \<open>The sag builders\<close>

text \<open>
  A sag object carries its coefficient dictionary \<^verbatim>\<open>coefs\<close> (order to coefficient),
  its sample count \<^verbatim>\<open>samples\<close> and the array \<^verbatim>\<open>phase\<close> it builds; the fields are
  prefixed here to keep them apart from the variables above. The caches are
  process-wide objects, so a build takes the cache state and returns the new one.
  \<^verbatim>\<open>QPolySag1D.build\<close> reads the class attribute \<^verbatim>\<open>_cache\<close>, which only the subclasses
  define: it is the parameter \<open>call\<close>, the cache called with an order and a sample
  count (and the default radius 1). An exception raised in the loop leaves \<^verbatim>\<open>phase\<close>
  as accumulated so far.
\<close>

record sag =
  sag_coefs :: "(nat \<times> real) list"
  sag_samples :: nat
  sag_phase :: ndv

fun build_loop ::
  "('c \<Rightarrow> nat \<Rightarrow> nat \<Rightarrow> (error + ndv) \<times> 'c) \<Rightarrow> nat \<Rightarrow> (nat \<times> real) list \<Rightarrow> ndv \<Rightarrow> 'c
     \<Rightarrow> error option \<times> ndv \<times> 'c" where
  "build_loop call samples [] phase c = (None, phase, c)"
| "build_loop call samples ((term, coef) # rest) phase c =
     (if coef = 0 then build_loop call samples rest phase c
      else (case call c term samples of
              (Inl e, c') \<Rightarrow> (Some e, phase, c')
            | (Inr q, c') \<Rightarrow> build_loop call samples rest (phase + Scalar coef * q) c'))"

definition QPolySag1D_build ::
  "('c \<Rightarrow> nat \<Rightarrow> nat \<Rightarrow> (error + ndv) \<times> 'c) \<Rightarrow> sag \<Rightarrow> 'c \<Rightarrow> error option \<times> sag \<times> 'c" where
  "QPolySag1D_build call self c =
     (let phase = zeros (sag_samples self) (sag_samples self);
          ordered_terms = sort (map fst (sag_coefs self))
      in case getitems (sag_coefs self) ordered_terms of
           Inl e \<Rightarrow> (Some e, self\<lparr>sag_phase := phase\<rparr>, c)
         | Inr ordered_values \<Rightarrow>
             (case build_loop call (sag_samples self) (zip ordered_terms ordered_values) phase c of
                (err, phase', c') \<Rightarrow> (err, self\<lparr>sag_phase := phase'\<rparr>, c')))"

definition QBFScache :: "grid_provider \<Rightarrow> cache \<Rightarrow> nat \<Rightarrow> nat \<Rightarrow> (error + ndv) \<times> cache" where
  "QBFScache mk c m samples = (case QBFSCache_call mk c m samples 1 of (q, c') \<Rightarrow> (Inr q, c'))"

definition QCONcache :: "grid_provider \<Rightarrow> cache \<Rightarrow> nat \<Rightarrow> nat \<Rightarrow> (error + ndv) \<times> cache" where
  "QCONcache mk c m samples = QCONCache_call mk c m samples 1"

definition QBFSSag_build :: "grid_provider \<Rightarrow> sag \<Rightarrow> cache \<Rightarrow> error option \<times> sag \<times> cache" where
  "QBFSSag_build mk self c =
     (case QPolySag1D_build (QBFScache mk) self c of
        (Some e, self', c') \<Rightarrow> (Some e, self', c')
      | (None, self', c') \<Rightarrow>
          (case QBFSCache_get_grid mk c' (sag_samples self') 1 of (r2, c'') \<Rightarrow>
             (let coef = r2 * (Scalar 1 - r2)
              in (None, self'\<lparr>sag_phase := sag_phase self' * coef\<rparr>, c''))))"

definition QCONSag_build :: "grid_provider \<Rightarrow> sag \<Rightarrow> cache \<Rightarrow> error option \<times> sag \<times> cache" where
  "QCONSag_build mk self c =
     (case QPolySag1D_build (QCONcache mk) self c of
        (Some e, self', c') \<Rightarrow> (Some e, self', c')
      | (None, self', c') \<Rightarrow>
          (case QCONCache_get_grid mk c' (sag_samples self') 1 of (r2, c'') \<Rightarrow>
             (let coef = r2 * (Scalar 1 - r2)
              in (None, self'\<lparr>sag_phase := sag_phase self' * coef\<rparr>, c''))))"

text \<open>The sag object with the coefficient of one order left out of the dictionary.\<close>

definition omit_key :: "nat \<Rightarrow> sag \<Rightarrow> sag" where
  "omit_key k self = self\<lparr>sag_coefs := AList.delete k (sag_coefs self)\<rparr>"

text \<open>
  A cache for observing a build: it answers every request with the number 0 and keeps
  the list of the orders it was asked for.
\<close>

definition recording_cache :: "nat list \<Rightarrow> nat \<Rightarrow> nat \<Rightarrow> (error + ndv) \<times> nat list" where
  "recording_cache asked m samples = (Inr (Scalar 0), asked @ [m])"

section \<open>Reachable cache states\<close>

text \<open>
  The states a cache object can be in: the one its constructor makes, and every state
  one of its methods leaves behind (\<^verbatim>\<open>nbytes\<close> and \<^verbatim>\<open>make_key\<close> change nothing).
\<close>

inductive reachable_QBFS :: "grid_provider \<Rightarrow> cache \<Rightarrow> bool" for mk :: grid_provider where
  QBFS_init: "reachable_QBFS mk QBFSCache_init"
| QBFS_clear: "reachable_QBFS mk c \<Longrightarrow> reachable_QBFS mk (QBFSCache_clear c)"
| QBFS_grid: "reachable_QBFS mk c \<Longrightarrow> reachable_QBFS mk (snd (QBFSCache_get_grid mk c s r))"
| QBFS_P: "reachable_QBFS mk c \<Longrightarrow> reachable_QBFS mk (snd (QBFSCache_get_PBFS mk c m s r))"
| QBFS_Q: "reachable_QBFS mk c \<Longrightarrow> reachable_QBFS mk (snd (QBFSCache_get_QBFS mk c m s r))"

inductive reachable_QCON :: "grid_provider \<Rightarrow> cache \<Rightarrow> bool" for mk :: grid_provider where
  QCON_init: "reachable_QCON mk QCONCache_init"
| QCON_clear: "reachable_QCON mk c \<Longrightarrow> reachable_QCON mk (QCONCache_clear c)"
| QCON_grid: "reachable_QCON mk c \<Longrightarrow> reachable_QCON mk (snd (QCONCache_get_grid mk c s r))"
| QCON_P: "reachable_QCON mk c \<Longrightarrow> reachable_QCON mk (snd (QCONCache_get_PBFS mk c m s r))"
| QCON_Q: "reachable_QCON mk c \<Longrightarrow> reachable_QCON mk (snd (QCONCache_get_QCON mk c m s r))"

section \<open>Invariants of the cache states\<close>

text \<open>
  Every stored grid is the transformed grid of its key: the squared radial coordinate in
  the Qbfs cache, twice the square minus one in the Qcon cache.
\<close>

definition grids_QBFS :: "grid_provider \<Rightarrow> cache \<Rightarrow> bool" where
  "grids_QBFS mk c =
     (\<forall>s r v. map_of (grids c) (s, r) = Some v \<longrightarrow> v = nd_pow (Array (fst (mk s r))) 2)"

definition grids_QCON :: "grid_provider \<Rightarrow> cache \<Rightarrow> bool" where
  "grids_QCON mk c =
     (\<forall>s r v. map_of (grids c) (s, r) = Some v \<longrightarrow>
        v = Scalar 2 * nd_pow (Array (fst (mk s r))) 2 - Scalar 1)"

text \<open>A stored P term of an order above 2 has its two lower orders stored beside it.\<close>

definition Ps_closed :: "cache \<Rightarrow> bool" where
  "Ps_closed c =
     (\<forall>m s r. 2 < m \<and> map_of (Ps c) (m, s, r) \<noteq> None \<longrightarrow>
        map_of (Ps c) (m - 1, s, r) \<noteq> None \<and> map_of (Ps c) (m - 2, s, r) \<noteq> None)"

definition cache_inv :: "grid_provider \<Rightarrow> cache \<Rightarrow> bool" where
  "cache_inv mk c = (grids_QBFS mk c \<and> Ps_closed c)"

text \<open>What a call of \<^verbatim>\<open>get_PBFS\<close> for order \<open>m\<close> leaves behind, from state \<open>c\<close> to \<open>c'\<close>.\<close>

definition P_post :: "grid_provider \<Rightarrow> cache \<Rightarrow> nat \<Rightarrow> nat \<Rightarrow> real \<Rightarrow> cache \<Rightarrow> bool" where
  "P_post mk c m s r c' =
     (grids_QBFS mk c' \<and> Ps_closed c' \<and> Qs c' = Qs c
      \<and> (\<forall>k. map_of (Ps c) k \<noteq> None \<longrightarrow> map_of (Ps c') k \<noteq> None)
      \<and> map_of (Ps c') (m, s, r) \<noteq> None)"

section \<open>An example grid\<close>

text \<open>
  A grid provider for the examples, meant for three samples per side: the radial
  coordinate sqrt(x^2 + y^2) on the 3 x 3 grid with x and y in {-radius, 0, radius}, row
  by row. The centre of the aperture is the element of index 4, and four elements lie at
  the radius. The angular grid is not read by this module and is left at 0.
\<close>

definition example_grid :: grid_provider where
  "example_grid samples radius =
     ([sqrt 2 * radius, radius, sqrt 2 * radius,
       radius, 0, radius,
       sqrt 2 * radius, radius, sqrt 2 * radius],
      [0, 0, 0, 0, 0, 0, 0, 0, 0])"

section \<open>Shapes: the elementwise operations meet arrays of one size\<close>

lemma fits_refl: "fits x x"
  by (cases x) auto

lemma fits_lift2: "fits a x \<Longrightarrow> fits b x \<Longrightarrow> fits (lift2 f a b) x"
  by (cases a; cases b; cases x) auto

lemma elem_lift2:
  "fits a (Array xs) \<Longrightarrow> fits b (Array xs) \<Longrightarrow> i < length xs \<Longrightarrow>
   elem (lift2 f a b) i = f (elem a i) (elem b i)"
  by (cases a; cases b) auto

lemma fits_ops:
  assumes "fits a x" and "fits b x"
  shows "fits (a + b) x" and "fits (a - b) x" and "fits (a * b) x" and "fits (a / b) x"
  using assms by (simp_all add: plus_ndv_def minus_ndv_def times_ndv_def divide_ndv_def fits_lift2)

lemma elem_ops:
  assumes "fits a (Array xs)" and "fits b (Array xs)" and "i < length xs"
  shows "elem (a + b) i = elem a i + elem b i"
    and "elem (a - b) i = elem a i - elem b i"
    and "elem (a * b) i = elem a i * elem b i"
    and "elem (a / b) i = elem a i / elem b i"
  using assms
  by (simp_all add: plus_ndv_def minus_ndv_def times_ndv_def divide_ndv_def elem_lift2)

lemma size_P: "fits (qbfs_recurrence_P n x None None None) x"
  by (induction n x "None::ndv option" "None::ndv option" "None::ndv option"
        rule: qbfs_recurrence_P.induct)
     (auto simp: Let_def minus_ndv_def times_ndv_def intro!: fits_lift2 fits_refl)

lemma order_ge_2: "2 \<le> n \<Longrightarrow> \<exists>k. n = Suc (Suc k)"
  by (metis add_2_eq_Suc le_Suc_ex)

section \<open>The P-recurrence\<close>

text \<open>
  Claim C2. The P-recurrence follows its definition: P(0) is the constant 2, P(1) is
  6 - 8x, and for n >= 2, when no precomputed term is supplied, P(n) is
  (2 - 4x) P(n-1) - P(n-2). This is stated for the values and, for a coordinate array,
  element by element; P(n) has the shape of x or is a number that broadcasts.
\<close>

theorem qbfs_recurrence_P_spec:
  "qbfs_recurrence_P 0 x Pnm1 Pnm2 rc = Scalar 2
   \<and> qbfs_recurrence_P 1 x Pnm1 Pnm2 rc = Scalar 6 - Scalar 8 * x
   \<and> (2 \<le> n \<longrightarrow>
        qbfs_recurrence_P n x None None None =
          (Scalar 2 - Scalar 4 * x) * qbfs_recurrence_P (n - 1) x None None None
            - qbfs_recurrence_P (n - 2) x None None None)
   \<and> (i < length xs \<longrightarrow>
        elem (qbfs_recurrence_P 0 (Array xs) Pnm1 Pnm2 rc) i = 2
        \<and> elem (qbfs_recurrence_P 1 (Array xs) Pnm1 Pnm2 rc) i = 6 - 8 * xs ! i
        \<and> (2 \<le> n \<longrightarrow>
             elem (qbfs_recurrence_P n (Array xs) None None None) i =
               (2 - 4 * xs ! i) * elem (qbfs_recurrence_P (n - 1) (Array xs) None None None) i
                 - elem (qbfs_recurrence_P (n - 2) (Array xs) None None None) i))"
proof -
  have base0: "qbfs_recurrence_P 0 x Pnm1 Pnm2 rc = Scalar 2"
    by simp
  have base1: "qbfs_recurrence_P 1 x Pnm1 Pnm2 rc = Scalar 6 - Scalar 8 * x"
    by simp
  have step: "qbfs_recurrence_P n y None None None =
          (Scalar 2 - Scalar 4 * y) * qbfs_recurrence_P (n - 1) y None None None
            - qbfs_recurrence_P (n - 2) y None None None" if "2 \<le> n" for y
  proof -
    from that obtain k where "n = Suc (Suc k)"
      using order_ge_2 by blast
    then show ?thesis
      by (simp add: Let_def)
  qed
  have el1: "elem (qbfs_recurrence_P 1 (Array xs) Pnm1 Pnm2 rc) i = 6 - 8 * xs ! i"
    if "i < length xs"
    using that by (simp add: minus_ndv_def times_ndv_def)
  have elstep: "elem (qbfs_recurrence_P n (Array xs) None None None) i =
               (2 - 4 * xs ! i) * elem (qbfs_recurrence_P (n - 1) (Array xs) None None None) i
                 - elem (qbfs_recurrence_P (n - 2) (Array xs) None None None) i"
    if "i < length xs" "2 \<le> n"
  proof -
    let ?x = "Array xs"
    have c: "fits (Scalar 2 - Scalar 4 * ?x) ?x"
      by (simp add: minus_ndv_def times_ndv_def)
    have p1: "fits (qbfs_recurrence_P (n - 1) ?x None None None) ?x"
      and p2: "fits (qbfs_recurrence_P (n - 2) ?x None None None) ?x"
      by (rule size_P)+
    have "elem (qbfs_recurrence_P n ?x None None None) i =
          elem ((Scalar 2 - Scalar 4 * ?x) * qbfs_recurrence_P (n - 1) ?x None None None) i
            - elem (qbfs_recurrence_P (n - 2) ?x None None None) i"
      unfolding step [OF that(2)]
      by (rule elem_ops(2) [OF fits_ops(3) [OF c p1] p2 that(1)])
    also have "elem ((Scalar 2 - Scalar 4 * ?x) * qbfs_recurrence_P (n - 1) ?x None None None) i
          = elem (Scalar 2 - Scalar 4 * ?x) i
              * elem (qbfs_recurrence_P (n - 1) ?x None None None) i"
      by (rule elem_ops(3) [OF c p1 that(1)])
    also have "elem (Scalar 2 - Scalar 4 * ?x) i = 2 - 4 * xs ! i"
      using that(1) by (simp add: minus_ndv_def times_ndv_def)
    finally show ?thesis .
  qed
  show ?thesis
    using base0 base1 step el1 elstep by simp
qed

theorem qbfs_recurrence_P_spec_witness:
  "qbfs_recurrence_P 2 (Array [0, 1 / 2]) None None None =
     (Scalar 2 - Scalar 4 * Array [0, 1 / 2])
        * qbfs_recurrence_P 1 (Array [0, 1 / 2]) None None None
       - qbfs_recurrence_P 0 (Array [0, 1 / 2]) None None None
   \<and> elem (qbfs_recurrence_P 2 (Array [0, 1 / 2]) None None None) 1 =
       (2 - 4 * (1 / 2)) * elem (qbfs_recurrence_P 1 (Array [0, 1 / 2]) None None None) 1
         - elem (qbfs_recurrence_P 0 (Array [0, 1 / 2]) None None None) 1
   \<and> qbfs_recurrence_P 2 (Array [0, 1 / 2]) None None None = Array [10, - 2]"
  using qbfs_recurrence_P_spec [of "Array [0, 1 / 2]" None None None 2 1 "[0, 1 / 2]"]
  by (simp add: minus_ndv_def times_ndv_def)

section \<open>The recursion constants\<close>

text \<open>
  Claim C6. The recursion constants of the Qbfs family have their closed forms and
  recurrences: f(0) = 2, f(1) = sqrt(19)/2, g(0) = -1/2, and for every n >= 2
  f(n) = sqrt(n(n+1) + 3 - g(n-1)^2 - h(n-2)^2),
  g(n-1) = -(1 + g(n-2) h(n-2)) / f(n-1) and h(n-2) = -n(n-1) / (2 f(n-2)).
\<close>

theorem qbfs_constants_spec:
  "f_qbfs 0 = 2 \<and> f_qbfs 1 = sqrt 19 / 2 \<and> g_qbfs 0 = - 1 / 2
   \<and> (2 \<le> n \<longrightarrow>
        f_qbfs n = sqrt (real n * (real n + 1) + 3 - (g_qbfs (n - 1))\<^sup>2 - (h_qbfs (n - 2))\<^sup>2)
        \<and> g_qbfs (n - 1) = - (1 + g_qbfs (n - 2) * h_qbfs (n - 2)) / f_qbfs (n - 1)
        \<and> h_qbfs (n - 2) = - real n * (real n - 1) / (2 * f_qbfs (n - 2)))"
proof -
  have rec: "f_qbfs n = sqrt (real n * (real n + 1) + 3 - (g_qbfs (n - 1))\<^sup>2 - (h_qbfs (n - 2))\<^sup>2)
        \<and> g_qbfs (n - 1) = - (1 + g_qbfs (n - 2) * h_qbfs (n - 2)) / f_qbfs (n - 1)
        \<and> h_qbfs (n - 2) = - real n * (real n - 1) / (2 * f_qbfs (n - 2))" if "2 \<le> n"
  proof -
    from that obtain k where n: "n = Suc (Suc k)"
      using order_ge_2 by blast
    have "f_qbfs (Suc (Suc k)) =
        sqrt (real (Suc (Suc k)) * (real (Suc (Suc k)) + 1) + 3
              - (g_qbfs (Suc k))\<^sup>2 - (h_qbfs k)\<^sup>2)"
      by (simp add: Let_def algebra_simps del: h_qbfs.simps g_qbfs.simps of_nat_Suc)
    moreover have "g_qbfs (Suc k) = - (1 + g_qbfs k * h_qbfs k) / f_qbfs (Suc k)"
      by (simp only: g_qbfs.simps)
    moreover have "h_qbfs k =
        - real (Suc (Suc k)) * (real (Suc (Suc k)) - 1) / (2 * f_qbfs k)"
      by (simp only: h_qbfs.simps Let_def add_2_eq_Suc')
    ultimately show ?thesis
      unfolding n by (simp only: diff_Suc_1 diff_Suc_Suc diff_zero numeral_2_eq_2)
  qed
  show ?thesis
    using rec by simp
qed

theorem qbfs_constants_spec_witness:
  "f_qbfs 2 = sqrt (2 * (2 + 1) + 3 - (g_qbfs 1)\<^sup>2 - (h_qbfs 0)\<^sup>2)
   \<and> g_qbfs 1 = - (1 + g_qbfs 0 * h_qbfs 0) / f_qbfs 1
   \<and> h_qbfs 0 = - 2 * (2 - 1) / (2 * f_qbfs 0)
   \<and> f_qbfs 2 = sqrt (160 / 19) \<and> g_qbfs 1 = - (5 / (2 * sqrt 19)) \<and> h_qbfs 0 = - (1 / 2)"
  using qbfs_constants_spec [of 2]
  by (simp add: numeral_2_eq_2 Let_def)

section \<open>The Q-recurrence\<close>

text \<open>
  With every lower term supplied (the way the caches call it), the Q-recurrence is the
  three-term formula, and its base cases ignore what is supplied.
\<close>

lemma qbfs_recurrence_Q_base:
  "qbfs_recurrence_Q 0 x Pn Pnm1 Pnm2 Qnm1 Qnm2 rc = ones_like x"
  "qbfs_recurrence_Q 1 x Pn Pnm1 Pnm2 Qnm1 Qnm2 rc =
     Scalar (1 / sqrt 19) * (Scalar 13 - Scalar 16 * x)"
  by simp_all

lemma qbfs_recurrence_Q_chained:
  assumes "2 \<le> n"
  shows "qbfs_recurrence_Q n x (Some Pn) (Some Pnm1) (Some Pnm2) (Some Qnm1) (Some Qnm2) rc =
     (Pn - Scalar (g_qbfs (n - 1)) * Qnm1 - Scalar (h_qbfs (n - 2)) * Qnm2)
       / Scalar (f_qbfs n)"
proof -
  from assms obtain k where "n = Suc (Suc k)"
    using order_ge_2 by blast
  then show ?thesis
    by (simp add: Let_def del: g_qbfs.simps h_qbfs.simps f_qbfs.simps)
qed

lemma qbfs_recurrence_Q_order2:
  "qbfs_recurrence_Q 2 x None None None None None None =
     (qbfs_recurrence_P 2 x None None None
        - Scalar (g_qbfs 1) * qbfs_recurrence_Q 1 x None None None None None None
        - Scalar (h_qbfs 0) * qbfs_recurrence_Q 0 x None None None None None None)
       / Scalar (f_qbfs 2)"
  by (simp add: numeral_2_eq_2 Let_def del: g_qbfs.simps h_qbfs.simps f_qbfs.simps)

text \<open>The constants of orders 2 and 3 in closed form.\<close>

lemma f_qbfs_2: "f_qbfs 2 = sqrt (160 / 19)"
  by (simp add: numeral_2_eq_2 Let_def)

lemma g_qbfs_2: "g_qbfs 2 = - (34 / (19 * sqrt (160 / 19)))"
  by (simp add: numeral_2_eq_2 Let_def)

lemma h_qbfs_1: "h_qbfs 1 = - (6 / sqrt 19)"
  by (simp add: Let_def)

lemma f_qbfs_3: "f_qbfs 3 = sqrt (9671 / 760)"
proof -
  have "15 - (g_qbfs 2)\<^sup>2 - (h_qbfs 1)\<^sup>2 = 9671 / 760"
    unfolding g_qbfs_2 h_qbfs_1 by (simp add: power2_eq_square field_simps)
  moreover have "f_qbfs 3 = sqrt (15 - (g_qbfs 2)\<^sup>2 - (h_qbfs 1)\<^sup>2)"
    by (simp add: numeral_3_eq_3 numeral_2_eq_2 Let_def del: g_qbfs.simps h_qbfs.simps)
  ultimately show ?thesis
    by (simp only:)
qed

text \<open>
  What the unmemoised recursion computes for order 3 on the one-point grid x = 1/2, and
  what the three-term formula asks for there. In the source, the call for order 3 hands
  its own \<^verbatim>\<open>Pn\<close>, \<^verbatim>\<open>Pnm1\<close>, \<^verbatim>\<open>Pnm2\<close> and \<^verbatim>\<open>Qnm2\<close> to the recursive call for order 2,
  where these names mean the terms of one order less: order 2 is computed with Q(1) in
  the place of Q(0).
\<close>

lemma qbfs_recurrence_Q_3_code:
  "qbfs_recurrence_Q 3 (Array [1 / 2]) None None None None None None =
     Array [(- 2 - g_qbfs 2 * ((- 2 - g_qbfs 1 * (5 / sqrt 19) - h_qbfs 0 * (5 / sqrt 19))
                                  / f_qbfs 2)
              - h_qbfs 1 * (5 / sqrt 19)) / f_qbfs 3]"
  by (simp add: numeral_3_eq_3 numeral_2_eq_2 Let_def times_ndv_def minus_ndv_def divide_ndv_def
       del: g_qbfs.simps h_qbfs.simps f_qbfs.simps)

lemma qbfs_recurrence_Q_3_formula:
  "(qbfs_recurrence_P 3 (Array [1 / 2]) None None None
      - Scalar (g_qbfs 2) * qbfs_recurrence_Q 2 (Array [1 / 2]) None None None None None None
      - Scalar (h_qbfs 1) * qbfs_recurrence_Q 1 (Array [1 / 2]) None None None None None None)
     / Scalar (f_qbfs 3) =
     Array [(- 2 - g_qbfs 2 * ((- 2 - g_qbfs 1 * (5 / sqrt 19) - h_qbfs 0 * 1) / f_qbfs 2)
              - h_qbfs 1 * (5 / sqrt 19)) / f_qbfs 3]"
  by (simp add: numeral_3_eq_3 numeral_2_eq_2 Let_def times_ndv_def minus_ndv_def divide_ndv_def
       del: g_qbfs.simps h_qbfs.simps f_qbfs.simps)

text \<open>
  Claim C1. The Q-recurrence is meant to satisfy Q(0) = 1, Q(1) = (13 - 16x)/sqrt(19) and,
  for n >= 2 with no precomputed term supplied,
  Q(n) = (P(n) - g(n-1) Q(n-1) - h(n-2) Q(n-2)) / f(n). The base cases and order 2 do
  (lemmas \<open>qbfs_recurrence_Q_base\<close>, \<open>qbfs_recurrence_Q_order2\<close>); order 3 does not: on
  the one-point grid x = 1/2 the source returns a value different from the formula.
\<close>

theorem qbfs_recurrence_Q_order3_diverges:
  "qbfs_recurrence_Q 3 (Array [1 / 2]) None None None None None None \<noteq>
   (qbfs_recurrence_P 3 (Array [1 / 2]) None None None
      - Scalar (g_qbfs 2) * qbfs_recurrence_Q 2 (Array [1 / 2]) None None None None None None
      - Scalar (h_qbfs 1) * qbfs_recurrence_Q 1 (Array [1 / 2]) None None None None None None)
     / Scalar (f_qbfs 3)"
proof
  assume "qbfs_recurrence_Q 3 (Array [1 / 2]) None None None None None None =
   (qbfs_recurrence_P 3 (Array [1 / 2]) None None None
      - Scalar (g_qbfs 2) * qbfs_recurrence_Q 2 (Array [1 / 2]) None None None None None None
      - Scalar (h_qbfs 1) * qbfs_recurrence_Q 1 (Array [1 / 2]) None None None None None None)
     / Scalar (f_qbfs 3)"
  then have eq:
    "(- 2 - g_qbfs 2 * ((- 2 - g_qbfs 1 * (5 / sqrt 19) - h_qbfs 0 * (5 / sqrt 19)) / f_qbfs 2)
        - h_qbfs 1 * (5 / sqrt 19)) / f_qbfs 3
     = (- 2 - g_qbfs 2 * ((- 2 - g_qbfs 1 * (5 / sqrt 19) - h_qbfs 0 * 1) / f_qbfs 2)
        - h_qbfs 1 * (5 / sqrt 19)) / f_qbfs 3"
    unfolding qbfs_recurrence_Q_3_code qbfs_recurrence_Q_3_formula by simp
  have f3: "f_qbfs 3 \<noteq> 0"
    unfolding f_qbfs_3 by simp
  have f2: "f_qbfs 2 \<noteq> 0"
    unfolding f_qbfs_2 by simp
  have g2: "g_qbfs 2 \<noteq> 0"
    unfolding g_qbfs_2 by simp
  from eq f3 have
    "g_qbfs 2 * ((- 2 - g_qbfs 1 * (5 / sqrt 19) - h_qbfs 0 * (5 / sqrt 19)) / f_qbfs 2)
     = g_qbfs 2 * ((- 2 - g_qbfs 1 * (5 / sqrt 19) - h_qbfs 0 * 1) / f_qbfs 2)"
    by simp
  with g2 f2 have "h_qbfs 0 * (5 / sqrt 19) = h_qbfs 0 * 1"
    by (simp del: g_qbfs.simps h_qbfs.simps f_qbfs.simps)
  moreover have "h_qbfs 0 = - (1 / 2)"
    by (simp add: Let_def)
  ultimately have "5 / sqrt 19 = 1"
    by simp
  then have "sqrt 19 = 5"
    by (simp add: field_simps)
  then have "(sqrt 19)\<^sup>2 = 5\<^sup>2"
    by simp
  then show False
    by simp
qed

section \<open>The Qbfs cache keeps its invariants\<close>

lemma QBFS_get_grid_fields [simp]:
  "Ps (snd (QBFSCache_get_grid mk c s r)) = Ps c"
  "Qs (snd (QBFSCache_get_grid mk c s r)) = Qs c"
  by (simp_all add: QBFSCache_get_grid_def Let_def split: option.splits)

lemma QBFS_get_grid_ok:
  assumes "grids_QBFS mk c"
  shows "grids_QBFS mk (snd (QBFSCache_get_grid mk c s r))"
    and "fst (QBFSCache_get_grid mk c s r) = nd_pow (Array (fst (mk s r))) 2"
  using assms
  by (auto simp: QBFSCache_get_grid_def grids_QBFS_def make_key_def Let_def update_conv'
        split: option.splits)

lemma QBFS_get_PBFS_hit:
  "map_of (Ps c) (m, s, r) = Some p \<Longrightarrow> QBFSCache_get_PBFS mk c m s r = (p, c)"
  by (subst QBFSCache_get_PBFS.simps) (simp add: make_key_def)

lemma QBFS_get_PBFS_low:
  "map_of (Ps c) (m, s, r) = None \<Longrightarrow> \<not> 2 < m \<Longrightarrow>
   QBFSCache_get_PBFS mk c m s r =
     (case QBFSCache_get_grid mk c s r of (rho, c1) \<Rightarrow>
        (qbfs_recurrence_P m rho None None None,
         c1\<lparr>Ps := AList.update (m, s, r) (qbfs_recurrence_P m rho None None None) (Ps c1)\<rparr>))"
  by (subst QBFSCache_get_PBFS.simps) (simp add: make_key_def Let_def)

lemma QBFS_get_PBFS_high:
  "map_of (Ps c) (m, s, r) = None \<Longrightarrow> 2 < m \<Longrightarrow>
   QBFSCache_get_PBFS mk c m s r =
     (case QBFSCache_get_grid mk c s r of (rho, c1) \<Rightarrow>
      case QBFSCache_get_PBFS mk c1 (m - 2) s r of (Pnm2, c2) \<Rightarrow>
      case QBFSCache_get_PBFS mk c2 (m - 1) s r of (Pnm1, c3) \<Rightarrow>
        (qbfs_recurrence_P m rho (Some Pnm1) (Some Pnm2) None,
         c3\<lparr>Ps := AList.update (m, s, r)
                     (qbfs_recurrence_P m rho (Some Pnm1) (Some Pnm2) None) (Ps c3)\<rparr>))"
  by (subst QBFSCache_get_PBFS.simps) (simp add: make_key_def Let_def)

lemma Ps_closed_update:
  assumes "Ps_closed c" and "2 < m \<longrightarrow> map_of (Ps c) (m - 1, s, r) \<noteq> None \<and> map_of (Ps c) (m - 2, s, r) \<noteq> None"
  shows "Ps_closed (c\<lparr>Ps := AList.update (m, s, r) p (Ps c)\<rparr>)"
  using assms unfolding Ps_closed_def by (auto simp: update_conv')

lemma QBFS_get_PBFS_post:
  "grids_QBFS mk c \<Longrightarrow> Ps_closed c \<Longrightarrow> P_post mk c m s r (snd (QBFSCache_get_PBFS mk c m s r))"
proof (induction m arbitrary: c rule: less_induct)
  case (less m)
  show ?case
  proof (cases "map_of (Ps c) (m, s, r)")
    case (Some p)
    with less.prems show ?thesis
      by (simp add: QBFS_get_PBFS_hit P_post_def)
  next
    case None
    obtain rho c1 where g: "QBFSCache_get_grid mk c s r = (rho, c1)"
      by (cases "QBFSCache_get_grid mk c s r")
    have c1: "grids_QBFS mk c1" "Ps c1 = Ps c" "Qs c1 = Qs c"
      using QBFS_get_grid_ok(1) [OF less.prems(1), of s r] QBFS_get_grid_fields [of mk c s r]
      by (simp_all add: g)
    have cl1: "Ps_closed c1"
      using less.prems(2) c1(2) by (simp add: Ps_closed_def)
    show ?thesis
    proof (cases "2 < m")
      case False
      have "Ps_closed (c1\<lparr>Ps := AList.update (m, s, r) (qbfs_recurrence_P m rho None None None) (Ps c1)\<rparr>)"
        by (rule Ps_closed_update [OF cl1]) (simp add: False)
      with c1 show ?thesis
        by (simp add: QBFS_get_PBFS_low [OF None False] g P_post_def grids_QBFS_def update_conv')
    next
      case True
      obtain Pnm2 c2 where p2: "QBFSCache_get_PBFS mk c1 (m - 2) s r = (Pnm2, c2)"
        by (cases "QBFSCache_get_PBFS mk c1 (m - 2) s r")
      obtain Pnm1 c3 where p1: "QBFSCache_get_PBFS mk c2 (m - 1) s r = (Pnm1, c3)"
        by (cases "QBFSCache_get_PBFS mk c2 (m - 1) s r")
      have "P_post mk c1 (m - 2) s r (snd (QBFSCache_get_PBFS mk c1 (m - 2) s r))"
        using True by (intro less.IH c1(1) cl1) simp
      then have post2: "P_post mk c1 (m - 2) s r c2"
        by (simp only: p2 snd_conv)
      have "P_post mk c2 (m - 1) s r (snd (QBFSCache_get_PBFS mk c2 (m - 1) s r))"
        using True post2 by (intro less.IH) (simp_all add: P_post_def)
      then have post1: "P_post mk c2 (m - 1) s r c3"
        by (simp only: p1 snd_conv)
      have both: "map_of (Ps c3) (m - 1, s, r) \<noteq> None \<and> map_of (Ps c3) (m - 2, s, r) \<noteq> None"
        using post1 post2 unfolding P_post_def by blast
      have "Ps_closed (c3\<lparr>Ps := AList.update (m, s, r)
               (qbfs_recurrence_P m rho (Some Pnm1) (Some Pnm2) None) (Ps c3)\<rparr>)"
        by (rule Ps_closed_update) (use post1 both in \<open>simp_all add: P_post_def\<close>)
      moreover have "snd (QBFSCache_get_PBFS mk c m s r) =
          c3\<lparr>Ps := AList.update (m, s, r)
               (qbfs_recurrence_P m rho (Some Pnm1) (Some Pnm2) None) (Ps c3)\<rparr>"
        by (simp only: QBFS_get_PBFS_high [OF None True] g p1 p2 prod.case snd_conv)
      ultimately show ?thesis
        using post1 post2 c1 by (simp add: P_post_def grids_QBFS_def update_conv')
    qed
  qed
qed


lemma QBFS_get_grid_inv: "cache_inv mk c \<Longrightarrow> cache_inv mk (snd (QBFSCache_get_grid mk c s r))"
  using QBFS_get_grid_ok(1) [of mk c s r] by (simp add: cache_inv_def Ps_closed_def)

lemma QBFS_get_PBFS_inv: "cache_inv mk c \<Longrightarrow> cache_inv mk (snd (QBFSCache_get_PBFS mk c m s r))"
  using QBFS_get_PBFS_post [of mk c m s r] by (simp add: cache_inv_def P_post_def)

lemma cache_inv_Qs: "cache_inv mk c \<Longrightarrow> cache_inv mk (c\<lparr>Qs := qs\<rparr>)"
  by (simp add: cache_inv_def grids_QBFS_def Ps_closed_def)

lemma QBFS_get_QBFS_hit:
  "map_of (Qs c) (m, s, r) = Some q \<Longrightarrow> QBFSCache_get_QBFS mk c m s r = (q, c)"
  by (subst QBFSCache_get_QBFS.simps) (simp add: make_key_def)

lemma QBFS_get_QBFS_low:
  "map_of (Qs c) (m, s, r) = None \<Longrightarrow> \<not> 2 < m \<Longrightarrow>
   QBFSCache_get_QBFS mk c m s r =
     (case QBFSCache_get_grid mk c s r of (rho, c1) \<Rightarrow>
      case QBFSCache_get_PBFS mk c1 m s r of (Pm, c2) \<Rightarrow>
        (qbfs_recurrence_Q m rho (Some Pm) None None None None None,
         c2\<lparr>Qs := AList.update (m, s, r)
                     (qbfs_recurrence_Q m rho (Some Pm) None None None None None) (Qs c2)\<rparr>))"
  by (subst QBFSCache_get_QBFS.simps) (simp add: make_key_def Let_def)

lemma QBFS_get_QBFS_high:
  "map_of (Qs c) (m, s, r) = None \<Longrightarrow> 2 < m \<Longrightarrow>
   QBFSCache_get_QBFS mk c m s r =
     (case QBFSCache_get_grid mk c s r of (rho, c1) \<Rightarrow>
      case QBFSCache_get_PBFS mk c1 m s r of (Pm, c2) \<Rightarrow>
      case QBFSCache_get_PBFS mk c2 (m - 2) s r of (Pnm2, c3) \<Rightarrow>
      case QBFSCache_get_PBFS mk c3 (m - 1) s r of (Pnm1, c4) \<Rightarrow>
      case QBFSCache_get_QBFS mk c4 (m - 2) s r of (Qnm2, c5) \<Rightarrow>
      case QBFSCache_get_QBFS mk c5 (m - 1) s r of (Qnm1, c6) \<Rightarrow>
        (qbfs_recurrence_Q m rho (Some Pm) (Some Pnm1) (Some Pnm2) (Some Qnm1) (Some Qnm2) None,
         c6\<lparr>Qs := AList.update (m, s, r)
                     (qbfs_recurrence_Q m rho (Some Pm) (Some Pnm1) (Some Pnm2)
                        (Some Qnm1) (Some Qnm2) None) (Qs c6)\<rparr>))"
  by (subst QBFSCache_get_QBFS.simps) (simp add: make_key_def Let_def)

lemma QBFS_get_QBFS_inv: "cache_inv mk c \<Longrightarrow> cache_inv mk (snd (QBFSCache_get_QBFS mk c m s r))"
proof (induction m arbitrary: c rule: less_induct)
  case (less m)
  show ?case
  proof (cases "map_of (Qs c) (m, s, r)")
    case (Some q)
    with less.prems show ?thesis
      by (simp add: QBFS_get_QBFS_hit)
  next
    case None
    obtain rho c1 where g: "QBFSCache_get_grid mk c s r = (rho, c1)"
      by (cases "QBFSCache_get_grid mk c s r")
    obtain Pm c2 where p: "QBFSCache_get_PBFS mk c1 m s r = (Pm, c2)"
      by (cases "QBFSCache_get_PBFS mk c1 m s r")
    have c1: "cache_inv mk c1"
      using QBFS_get_grid_inv [OF less.prems, of s r] by (simp only: g snd_conv)
    have c2: "cache_inv mk c2"
      using QBFS_get_PBFS_inv [OF c1, of m s r] by (simp only: p snd_conv)
    show ?thesis
    proof (cases "2 < m")
      case False
      have "snd (QBFSCache_get_QBFS mk c m s r) =
          c2\<lparr>Qs := AList.update (m, s, r)
                     (qbfs_recurrence_Q m rho (Some Pm) None None None None None) (Qs c2)\<rparr>"
        by (simp only: QBFS_get_QBFS_low [OF None False] g p prod.case snd_conv)
      then show ?thesis
        by (simp only: cache_inv_Qs [OF c2])
    next
      case True
      obtain Pnm2 c3 where p2: "QBFSCache_get_PBFS mk c2 (m - 2) s r = (Pnm2, c3)"
        by (cases "QBFSCache_get_PBFS mk c2 (m - 2) s r")
      obtain Pnm1 c4 where p1: "QBFSCache_get_PBFS mk c3 (m - 1) s r = (Pnm1, c4)"
        by (cases "QBFSCache_get_PBFS mk c3 (m - 1) s r")
      obtain Qnm2 c5 where q2: "QBFSCache_get_QBFS mk c4 (m - 2) s r = (Qnm2, c5)"
        by (cases "QBFSCache_get_QBFS mk c4 (m - 2) s r")
      obtain Qnm1 c6 where q1: "QBFSCache_get_QBFS mk c5 (m - 1) s r = (Qnm1, c6)"
        by (cases "QBFSCache_get_QBFS mk c5 (m - 1) s r")
      have c3: "cache_inv mk c3"
        using QBFS_get_PBFS_inv [OF c2, of "m - 2" s r] by (simp only: p2 snd_conv)
      have c4: "cache_inv mk c4"
        using QBFS_get_PBFS_inv [OF c3, of "m - 1" s r] by (simp only: p1 snd_conv)
      have "cache_inv mk (snd (QBFSCache_get_QBFS mk c4 (m - 2) s r))"
        using True by (intro less.IH c4) simp
      then have c5: "cache_inv mk c5"
        by (simp only: q2 snd_conv)
      have "cache_inv mk (snd (QBFSCache_get_QBFS mk c5 (m - 1) s r))"
        using True by (intro less.IH c5) simp
      then have c6: "cache_inv mk c6"
        by (simp only: q1 snd_conv)
      have "snd (QBFSCache_get_QBFS mk c m s r) =
          c6\<lparr>Qs := AList.update (m, s, r)
                     (qbfs_recurrence_Q m rho (Some Pm) (Some Pnm1) (Some Pnm2)
                        (Some Qnm1) (Some Qnm2) None) (Qs c6)\<rparr>"
        by (simp only: QBFS_get_QBFS_high [OF None True] g p p2 p1 q2 q1 prod.case snd_conv)
      then show ?thesis
        by (simp only: cache_inv_Qs [OF c6])
    qed
  qed
qed

lemma reachable_QBFS_inv: "reachable_QBFS mk c \<Longrightarrow> cache_inv mk c"
proof (induction rule: reachable_QBFS.induct)
  case QBFS_init
  show ?case
    by (simp add: cache_inv_def grids_QBFS_def Ps_closed_def QBFSCache_init_def)
next
  case (QBFS_clear c)
  show ?case
    by (simp add: cache_inv_def grids_QBFS_def Ps_closed_def QBFSCache_clear_def)
next
  case (QBFS_grid c s r)
  then show ?case by (simp only: QBFS_get_grid_inv)
next
  case (QBFS_P c m s r)
  then show ?case by (simp only: QBFS_get_PBFS_inv)
next
  case (QBFS_Q c m s r)
  then show ?case by (simp only: QBFS_get_QBFS_inv)
qed

section \<open>The Qcon cache keeps its grids\<close>

lemma QCON_get_grid_ok:
  assumes "grids_QCON mk c"
  shows "grids_QCON mk (snd (QCONCache_get_grid mk c s r))"
    and "fst (QCONCache_get_grid mk c s r) = Scalar 2 * nd_pow (Array (fst (mk s r))) 2 - Scalar 1"
  using assms
  by (auto simp: QCONCache_get_grid_def grids_QCON_def make_key_def Let_def update_conv'
        split: option.splits)

lemma QCON_get_PBFS_grids:
  "grids_QCON mk c \<Longrightarrow> grids_QCON mk (snd (QCONCache_get_PBFS mk c m s r))"
proof (induction m arbitrary: c rule: less_induct)
  case (less m)
  obtain rho c1 where g: "QCONCache_get_grid mk c s r = (rho, c1)"
    by (cases "QCONCache_get_grid mk c s r")
  have c1: "grids_QCON mk c1"
    using QCON_get_grid_ok(1) [OF less.prems, of s r] by (simp only: g snd_conv)
  obtain Pnm2 c2 where p2: "QCONCache_get_PBFS mk c1 (m - 2) s r = (Pnm2, c2)"
    by (cases "QCONCache_get_PBFS mk c1 (m - 2) s r")
  obtain Pnm1 c3 where p1: "QCONCache_get_PBFS mk c2 (m - 1) s r = (Pnm1, c3)"
    by (cases "QCONCache_get_PBFS mk c2 (m - 1) s r")
  have c3: "grids_QCON mk c3" if "2 < m"
  proof -
    have "grids_QCON mk (snd (QCONCache_get_PBFS mk c1 (m - 2) s r))"
      using that by (intro less.IH c1) simp
    then have "grids_QCON mk c2"
      by (simp only: p2 snd_conv)
    then have "grids_QCON mk (snd (QCONCache_get_PBFS mk c2 (m - 1) s r))"
      using that by (intro less.IH) simp_all
    then show ?thesis
      by (simp only: p1 snd_conv)
  qed
  have "QCONCache_get_PBFS mk c m s r =
     (case map_of (Ps c) (m, s, r) of
        Some Pm \<Rightarrow> (Pm, c)
      | None \<Rightarrow>
          if 2 < m then
            (qbfs_recurrence_P m rho (Some Pnm1) (Some Pnm2) None,
             c3\<lparr>Ps := AList.update (m, s, r)
                         (qbfs_recurrence_P m rho (Some Pnm1) (Some Pnm2) None) (Ps c3)\<rparr>)
          else
            (qbfs_recurrence_P m rho None None None,
             c1\<lparr>Ps := AList.update (m, s, r) (qbfs_recurrence_P m rho None None None) (Ps c1)\<rparr>))"
    by (subst QCONCache_get_PBFS.simps)
       (simp only: make_key_def Let_def g p2 p1 prod.case)
  then show ?case
    using less.prems c1 c3 by (auto simp: grids_QCON_def split: option.splits)
qed

lemma QCON_get_QCON_grids:
  "grids_QCON mk c \<Longrightarrow> grids_QCON mk (snd (QCONCache_get_QCON mk c m s r))"
proof -
  assume c: "grids_QCON mk c"
  obtain rho c1 where g: "QCONCache_get_grid mk c s r = (rho, c1)"
    by (cases "QCONCache_get_grid mk c s r")
  have c1: "grids_QCON mk c1"
    using QCON_get_grid_ok(1) [OF c, of s r] by (simp only: g snd_conv)
  obtain Pm c2 where p: "QCONCache_get_PBFS mk c1 m s r = (Pm, c2)"
    by (cases "QCONCache_get_PBFS mk c1 m s r")
  have c2: "grids_QCON mk c2"
    using QCON_get_PBFS_grids [OF c1, of m s r] by (simp only: p snd_conv)
  obtain Pnm2 c3 where p2: "QCONCache_get_PBFS mk c2 (m - 2) s r = (Pnm2, c3)"
    by (cases "QCONCache_get_PBFS mk c2 (m - 2) s r")
  have c3: "grids_QCON mk c3"
    using QCON_get_PBFS_grids [OF c2, of "m - 2" s r] by (simp only: p2 snd_conv)
  obtain Pnm1 c4 where p1: "QCONCache_get_PBFS mk c3 (m - 1) s r = (Pnm1, c4)"
    by (cases "QCONCache_get_PBFS mk c3 (m - 1) s r")
  have c4: "grids_QCON mk c4"
    using QCON_get_PBFS_grids [OF c3, of "m - 1" s r] by (simp only: p1 snd_conv)
  have "QCONCache_get_QCON mk c m s r =
     (case map_of (Qs c) (m, s, r) of
        Some Qm \<Rightarrow> (Inr Qm, c)
      | None \<Rightarrow>
          if 2 < m then (Inl AttributeError, c4)
          else (Inr (qbfs_recurrence_Q m rho (Some Pm) None None None None None),
                c2\<lparr>Qs := AList.update (m, s, r)
                   (qbfs_recurrence_Q m rho (Some Pm) None None None None None) (Qs c2)\<rparr>))"
    by (simp only: QCONCache_get_QCON_def make_key_def Let_def g p p2 p1 prod.case)
  then show ?thesis
    using c c2 c4 by (auto simp: grids_QCON_def split: option.splits)
qed

lemma reachable_QCON_grids: "reachable_QCON mk c \<Longrightarrow> grids_QCON mk c"
proof (induction rule: reachable_QCON.induct)
  case QCON_init
  show ?case
    by (simp add: grids_QCON_def QCONCache_init_def)
next
  case (QCON_clear c)
  show ?case
    by (simp add: grids_QCON_def QCONCache_clear_def)
next
  case (QCON_grid c s r)
  then show ?case by (simp only: QCON_get_grid_ok(1))
next
  case (QCON_P c m s r)
  then show ?case by (simp only: QCON_get_PBFS_grids)
next
  case (QCON_Q c m s r)
  then show ?case by (simp only: QCON_get_QCON_grids)
qed

section \<open>Lower orders of a cached P term\<close>

text \<open>
  For order 2 the source does not fetch the lower orders from the cache (the guard is
  \<^verbatim>\<open>m > 2\<close>): the recurrence computes P(1) and P(0) itself and only P(2) is stored.
\<close>

lemma QBFS_get_PBFS_order2_fresh:
  "map fst (Ps (snd (QBFSCache_get_PBFS mk QBFSCache_init 2 s r))) = [(2, s, r)]"
proof -
  have "Ps (snd (QBFSCache_get_grid mk QBFSCache_init s r)) = []"
    by (simp add: QBFSCache_init_def)
  then show ?thesis
    by (simp add: QBFS_get_PBFS_low QBFSCache_init_def case_prod_beta)
qed

text \<open>
  Claim C9, as stated (for every order n >= 2 the P store holds the orders n-1 and n-2
  after \<^verbatim>\<open>get_PBFS(n, samples, rho_max)\<close>), fails at n = 2 on a fresh cache.
\<close>

theorem QBFS_get_PBFS_order2_counterexample:
  "\<not> (map_of (Ps (snd (QBFSCache_get_PBFS example_grid QBFSCache_init 2 3 1)))
          (make_key 1 3 1) \<noteq> None
      \<and> map_of (Ps (snd (QBFSCache_get_PBFS example_grid QBFSCache_init 2 3 1)))
          (make_key 0 3 1) \<noteq> None)"
proof -
  have "map_of (Ps (snd (QBFSCache_get_PBFS example_grid QBFSCache_init 2 3 1))) (make_key 1 3 1)
        = None"
    unfolding map_of_eq_None_iff set_map [symmetric]
      QBFS_get_PBFS_order2_fresh [of example_grid 3 1]
    by (simp add: make_key_def)
  then show ?thesis
    by simp
qed

text \<open>
  Claim C9, amended: for every order n >= 3, every (samples, rho_max) and every state the
  Qbfs cache can reach, the P store holds entries for the orders n-1 and n-2 under the
  same (samples, rho_max) after \<^verbatim>\<open>get_PBFS(n, samples, rho_max)\<close> has returned.
\<close>

theorem QBFS_get_PBFS_lower_orders:
  assumes "reachable_QBFS mk c" and "3 \<le> n"
  shows "map_of (Ps (snd (QBFSCache_get_PBFS mk c n samples rho_max)))
           (make_key (n - 1) samples rho_max) \<noteq> None
       \<and> map_of (Ps (snd (QBFSCache_get_PBFS mk c n samples rho_max)))
           (make_key (n - 2) samples rho_max) \<noteq> None"
proof -
  have "cache_inv mk c"
    using assms(1) by (rule reachable_QBFS_inv)
  then have "P_post mk c n samples rho_max (snd (QBFSCache_get_PBFS mk c n samples rho_max))"
    by (simp add: cache_inv_def QBFS_get_PBFS_post)
  then have "Ps_closed (snd (QBFSCache_get_PBFS mk c n samples rho_max))"
    and "map_of (Ps (snd (QBFSCache_get_PBFS mk c n samples rho_max))) (n, samples, rho_max) \<noteq> None"
    by (simp_all add: P_post_def)
  moreover have "2 < n"
    using assms(2) by simp
  ultimately show ?thesis
    unfolding Ps_closed_def make_key_def by blast
qed

theorem QBFS_get_PBFS_lower_orders_witness:
  "reachable_QBFS example_grid QBFSCache_init \<and> (3::nat) \<le> 3
   \<and> map_of (Ps (snd (QBFSCache_get_PBFS example_grid QBFSCache_init 3 3 1)))
        (make_key 2 3 1) \<noteq> None
   \<and> map_of (Ps (snd (QBFSCache_get_PBFS example_grid QBFSCache_init 3 3 1)))
        (make_key 1 3 1) \<noteq> None"
  using QBFS_get_PBFS_lower_orders [OF QBFS_init, of 3 example_grid 3 1] QBFS_init [of example_grid]
  by simp

section \<open>The Qcon cache above order 2\<close>

text \<open>
  Claim C4. For every order m > 2 whose key is not in the Q store of the Qcon cache,
  \<^verbatim>\<open>get_QCON\<close>, and with it the callable entry point, raises \<^verbatim>\<open>AttributeError\<close>; so no
  order above 2 can be evaluated on a fresh or a cleared cache.
\<close>

theorem QCON_get_QCON_raises:
  assumes "2 < m"
  shows "(map_of (Qs c) (make_key m samples rho_max) = None \<longrightarrow>
            fst (QCONCache_get_QCON mk c m samples rho_max) = Inl AttributeError
            \<and> fst (QCONCache_call mk c m samples rho_max) = Inl AttributeError)
       \<and> fst (QCONCache_call mk QCONCache_init m samples rho_max) = Inl AttributeError
       \<and> fst (QCONCache_call mk (QCONCache_clear c) m samples rho_max) = Inl AttributeError"
proof -
  have miss: "fst (QCONCache_get_QCON mk d m samples rho_max) = Inl AttributeError"
    if "map_of (Qs d) (make_key m samples rho_max) = None" for d
    using that assms by (simp add: QCONCache_get_QCON_def Let_def split: prod.splits)
  show ?thesis
    using miss [of c] miss [of QCONCache_init] miss [of "QCONCache_clear c"]
    by (simp add: QCONCache_call_def QCONCache_init_def QCONCache_clear_def)
qed

theorem QCON_get_QCON_raises_witness:
  "(2::nat) < 3
   \<and> map_of (Qs QCONCache_init) (make_key (3::nat) 3 1) = None
   \<and> fst (QCONCache_get_QCON example_grid QCONCache_init 3 3 1) = Inl AttributeError
   \<and> fst (QCONCache_call example_grid QCONCache_init 3 3 1) = Inl AttributeError"
  using QCON_get_QCON_raises [of 3 QCONCache_init 3 1 example_grid]
  by (simp add: QCONCache_init_def)

section \<open>The grids of the two caches\<close>

text \<open>
  Claim C5. In every state it can reach, the Qbfs cache's \<^verbatim>\<open>get_grid\<close> returns the squared
  radial coordinate of the grid provider and the Qcon cache's \<^verbatim>\<open>get_grid\<close> returns twice
  the square minus one; the returned grid is the one stored under (samples, rho_max).
\<close>

theorem get_grid_transforms:
  assumes "reachable_QBFS mk c" and "reachable_QCON mk d"
  shows "fst (QBFSCache_get_grid mk c samples rho_max)
           = Array (map (\<lambda>rho. rho\<^sup>2) (fst (mk samples rho_max)))
       \<and> fst (QCONCache_get_grid mk d samples rho_max)
           = Array (map (\<lambda>rho. 2 * rho\<^sup>2 - 1) (fst (mk samples rho_max)))
       \<and> map_of (grids (snd (QBFSCache_get_grid mk c samples rho_max))) (samples, rho_max)
           = Some (fst (QBFSCache_get_grid mk c samples rho_max))
       \<and> map_of (grids (snd (QCONCache_get_grid mk d samples rho_max))) (samples, rho_max)
           = Some (fst (QCONCache_get_grid mk d samples rho_max))"
proof -
  have "grids_QBFS mk c"
    using reachable_QBFS_inv [OF assms(1)] by (simp add: cache_inv_def)
  then have "fst (QBFSCache_get_grid mk c samples rho_max)
      = nd_pow (Array (fst (mk samples rho_max))) 2"
    by (rule QBFS_get_grid_ok(2))
  then have bfs: "fst (QBFSCache_get_grid mk c samples rho_max)
      = Array (map (\<lambda>rho. rho\<^sup>2) (fst (mk samples rho_max)))"
    by simp
  have "grids_QCON mk d"
    using assms(2) by (rule reachable_QCON_grids)
  then have "fst (QCONCache_get_grid mk d samples rho_max)
      = Scalar 2 * nd_pow (Array (fst (mk samples rho_max))) 2 - Scalar 1"
    by (rule QCON_get_grid_ok(2))
  then have con: "fst (QCONCache_get_grid mk d samples rho_max)
      = Array (map (\<lambda>rho. 2 * rho\<^sup>2 - 1) (fst (mk samples rho_max)))"
    by (simp add: times_ndv_def minus_ndv_def)
  have st1: "map_of (grids (snd (QBFSCache_get_grid mk c samples rho_max))) (samples, rho_max)
           = Some (fst (QBFSCache_get_grid mk c samples rho_max))"
    by (simp add: QBFSCache_get_grid_def make_key_def Let_def update_conv' split: option.splits)
  have st2: "map_of (grids (snd (QCONCache_get_grid mk d samples rho_max))) (samples, rho_max)
           = Some (fst (QCONCache_get_grid mk d samples rho_max))"
    by (simp add: QCONCache_get_grid_def make_key_def Let_def update_conv' split: option.splits)
  show ?thesis
    using bfs con st1 st2 by simp
qed

theorem get_grid_transforms_witness:
  "reachable_QBFS example_grid QBFSCache_init \<and> reachable_QCON example_grid QCONCache_init
   \<and> fst (QBFSCache_get_grid example_grid QBFSCache_init 3 1)
       = Array [2, 1, 2, 1, 0, 1, 2, 1, 2]
   \<and> fst (QCONCache_get_grid example_grid QCONCache_init 3 1)
       = Array [3, 1, 3, 1, - 1, 1, 3, 1, 3]"
  using get_grid_transforms [OF QBFS_init QCON_init, where mk = example_grid
      and samples = 3 and rho_max = 1]
    QBFS_init [of example_grid] QCON_init [of example_grid]
  by (simp add: example_grid_def power2_eq_square)

section \<open>The sag builder reads its coefficients in ascending order\<close>

lemma getitems_present:
  "set ks \<subseteq> fst ` set d \<Longrightarrow> getitems d ks = Inr (map (\<lambda>k. the (map_of d k)) ks)"
proof (induction ks)
  case Nil
  show ?case by simp
next
  case (Cons k ks)
  then have "map_of d k \<noteq> None"
    by (simp add: map_of_eq_None_iff)
  then obtain v where "map_of d k = Some v"
    by blast
  with Cons show ?case
    by simp
qed

lemma ordered_items:
  "getitems d (sort (map fst d)) = Inr (map (\<lambda>k. the (map_of d k)) (sort (map fst d)))"
  by (rule getitems_present) simp

lemma QPolySag1D_build_unfold:
  "QPolySag1D_build call self c =
     (case build_loop call (sag_samples self)
             (map (\<lambda>k. (k, the (map_of (sag_coefs self) k))) (sort (map fst (sag_coefs self))))
             (zeros (sag_samples self) (sag_samples self)) c of
        (err, phase', c') \<Rightarrow> (err, self\<lparr>sag_phase := phase'\<rparr>, c'))"
  by (simp add: QPolySag1D_build_def Let_def ordered_items zip_map2 zip_same_conv_map o_def)

lemma sorted_keys_eq:
  assumes "distinct (map fst xs)" and "distinct (map fst ys)" and "set xs = set ys"
  shows "sort (map fst xs) = sort (map fst ys)"
proof (rule sorted_distinct_set_unique)
  show "set (sort (map fst xs)) = set (sort (map fst ys))"
    using assms(3) by simp
qed (use assms in simp_all)

lemma build_loop_skip:
  "\<forall>(t, cf) \<in> set l. t = k \<longrightarrow> cf = 0 \<Longrightarrow>
   build_loop call s l ph c = build_loop call s (filter (\<lambda>(t, cf). t \<noteq> k) l) ph c"
proof (induction l arbitrary: ph c)
  case Nil
  show ?case by simp
next
  case (Cons x l)
  obtain t cf where x: "x = (t, cf)" by (cases x)
  from Cons.prems have rest: "\<forall>(t, cf) \<in> set l. t = k \<longrightarrow> cf = 0"
    by simp
  show ?case
  proof (cases "t = k")
    case True
    with Cons.prems x have "cf = 0" by simp
    with True x Cons.IH [OF rest] show ?thesis by simp
  next
    case False
    with x Cons.IH [OF rest] show ?thesis
      by (simp split: prod.splits sum.splits)
  qed
qed

text \<open>
  Claim C7. The sag builder does not depend on the insertion order of the coefficient
  mapping: for two coefficient dictionaries holding the same (order, coefficient) pairs
  the sorted orders and the values read for them are the same lists, so the same terms
  are fetched and summed in the same order, and the build ends with the same outcome,
  the same sag array and the same cache state. This holds for the base class with any
  cache and for the Qbfs and Qcon builders.
\<close>

theorem build_order_independent:
  assumes "distinct (map fst (sag_coefs a))" and "distinct (map fst (sag_coefs b))"
    and "set (sag_coefs a) = set (sag_coefs b)" and "sag_samples a = sag_samples b"
  shows "sort (map fst (sag_coefs a)) = sort (map fst (sag_coefs b))
    \<and> getitems (sag_coefs a) (sort (map fst (sag_coefs a)))
        = getitems (sag_coefs b) (sort (map fst (sag_coefs b)))
    \<and> fst (QPolySag1D_build call a c) = fst (QPolySag1D_build call b c)
    \<and> sag_phase (fst (snd (QPolySag1D_build call a c)))
        = sag_phase (fst (snd (QPolySag1D_build call b c)))
    \<and> snd (snd (QPolySag1D_build call a c)) = snd (snd (QPolySag1D_build call b c))
    \<and> fst (QBFSSag_build mk a d) = fst (QBFSSag_build mk b d)
    \<and> sag_phase (fst (snd (QBFSSag_build mk a d))) = sag_phase (fst (snd (QBFSSag_build mk b d)))
    \<and> snd (snd (QBFSSag_build mk a d)) = snd (snd (QBFSSag_build mk b d))
    \<and> fst (QCONSag_build mk a d) = fst (QCONSag_build mk b d)
    \<and> sag_phase (fst (snd (QCONSag_build mk a d))) = sag_phase (fst (snd (QCONSag_build mk b d)))
    \<and> snd (snd (QCONSag_build mk a d)) = snd (snd (QCONSag_build mk b d))"
proof -
  have keys: "sort (map fst (sag_coefs a)) = sort (map fst (sag_coefs b))"
    using assms(1-3) by (rule sorted_keys_eq)
  have vals: "map_of (sag_coefs a) = map_of (sag_coefs b)"
    using assms(1-3) by (simp add: map_of_inject_set)
  have items: "getitems (sag_coefs a) (sort (map fst (sag_coefs a)))
        = getitems (sag_coefs b) (sort (map fst (sag_coefs b)))"
    unfolding ordered_items by (simp only: keys vals)
  have loop: "map (\<lambda>k. (k, the (map_of (sag_coefs a) k))) (sort (map fst (sag_coefs a)))
      = map (\<lambda>k. (k, the (map_of (sag_coefs b) k))) (sort (map fst (sag_coefs b)))"
    by (simp only: keys vals)
  have gen: "fst (QPolySag1D_build call' a c') = fst (QPolySag1D_build call' b c')
    \<and> sag_phase (fst (snd (QPolySag1D_build call' a c')))
        = sag_phase (fst (snd (QPolySag1D_build call' b c')))
    \<and> sag_samples (fst (snd (QPolySag1D_build call' a c')))
        = sag_samples (fst (snd (QPolySag1D_build call' b c')))
    \<and> snd (snd (QPolySag1D_build call' a c')) = snd (snd (QPolySag1D_build call' b c'))"
    for call' :: "'x \<Rightarrow> nat \<Rightarrow> nat \<Rightarrow> (error + ndv) \<times> 'x" and c'
    unfolding QPolySag1D_build_unfold loop
    by (simp add: case_prod_beta assms(4))
  show ?thesis
    using keys items gen [of call c] gen [of "QBFScache mk" d] gen [of "QCONcache mk" d]
    by (simp add: QBFSSag_build_def QCONSag_build_def case_prod_beta split: option.splits)
qed


theorem build_order_independent_witness:
  "distinct (map fst [(0 :: nat, 1 :: real), (1, 1 / 2)])
   \<and> distinct (map fst [(1 :: nat, 1 / 2 :: real), (0, 1)])
   \<and> set [(0 :: nat, 1 :: real), (1, 1 / 2)] = set [(1, 1 / 2), (0, 1)]
   \<and> sag_phase (fst (snd (QBFSSag_build example_grid
          \<lparr>sag_coefs = [(0, 1), (1, 1 / 2)], sag_samples = 3, sag_phase = zeros 3 3\<rparr>
          QBFSCache_init)))
      = sag_phase (fst (snd (QBFSSag_build example_grid
          \<lparr>sag_coefs = [(1, 1 / 2), (0, 1)], sag_samples = 3, sag_phase = zeros 3 3\<rparr>
          QBFSCache_init)))"
  using build_order_independent
    [of "\<lparr>sag_coefs = [(0, 1), (1, 1 / 2)], sag_samples = 3, sag_phase = zeros 3 3\<rparr>"
        "\<lparr>sag_coefs = [(1, 1 / 2), (0, 1)], sag_samples = 3, sag_phase = zeros 3 3\<rparr>"
        "QBFScache example_grid" QBFSCache_init example_grid QBFSCache_init]
  by auto

section \<open>Orders with a zero coefficient are skipped\<close>

lemma ordered_items_delete:
  "map (\<lambda>t. (t, the (map_of (AList.delete k xs) t))) (sort (map fst (AList.delete k xs)))
   = filter (\<lambda>(t, cf). t \<noteq> k)
       (map (\<lambda>t. (t, the (map_of xs t))) (sort (map fst xs)))"
proof -
  have "map fst (AList.delete k xs) = filter (\<lambda>t. t \<noteq> k) (map fst xs)"
    by (induction xs) auto
  then have "sort (map fst (AList.delete k xs)) = filter (\<lambda>t. t \<noteq> k) (sort (map fst xs))"
    by (simp add: filter_sort)
  then show ?thesis
    by (simp add: filter_map o_def delete_conv)
qed

lemma build_loop_recording_step:
  "build_loop recording_cache s ((t, cf) # l) ph asked =
     (if cf = 0 then build_loop recording_cache s l ph asked
      else build_loop recording_cache s l (ph + Scalar cf * Scalar 0) (asked @ [t]))"
  by (simp add: recording_cache_def)

lemma build_loop_recording:
  "set (snd (snd (build_loop recording_cache s l ph asked)))
     = set asked \<union> {t. \<exists>cf. (t, cf) \<in> set l \<and> cf \<noteq> 0}"
proof (induction l arbitrary: ph asked)
  case Nil
  show ?case by simp
next
  case (Cons x l)
  obtain t cf where x: "x = (t, cf)" by (cases x)
  show ?case
  proof (cases "cf = 0")
    case True
    then show ?thesis
      unfolding x build_loop_recording_step by (auto simp: Cons.IH)
  next
    case False
    then show ?thesis
      unfolding x build_loop_recording_step by (auto simp: Cons.IH)
  qed
qed

text \<open>
  Claim C8. For every coefficient dictionary and every order whose coefficient is
  exactly 0, the build gives the same outcome, the same sag array and the same cache
  state as the build with that key left out, for the base class with any cache and for
  the Qbfs and Qcon builders; a cache that records its requests is never asked for that
  order.
\<close>

theorem build_zero_coefficient_skipped:
  assumes "distinct (map fst (sag_coefs self))" and "(k, 0) \<in> set (sag_coefs self)"
  shows "fst (QPolySag1D_build call self c) = fst (QPolySag1D_build call (omit_key k self) c)
    \<and> sag_phase (fst (snd (QPolySag1D_build call self c)))
        = sag_phase (fst (snd (QPolySag1D_build call (omit_key k self) c)))
    \<and> snd (snd (QPolySag1D_build call self c)) = snd (snd (QPolySag1D_build call (omit_key k self) c))
    \<and> fst (QBFSSag_build mk self d) = fst (QBFSSag_build mk (omit_key k self) d)
    \<and> sag_phase (fst (snd (QBFSSag_build mk self d)))
        = sag_phase (fst (snd (QBFSSag_build mk (omit_key k self) d)))
    \<and> snd (snd (QBFSSag_build mk self d)) = snd (snd (QBFSSag_build mk (omit_key k self) d))
    \<and> fst (QCONSag_build mk self d) = fst (QCONSag_build mk (omit_key k self) d)
    \<and> sag_phase (fst (snd (QCONSag_build mk self d)))
        = sag_phase (fst (snd (QCONSag_build mk (omit_key k self) d)))
    \<and> snd (snd (QCONSag_build mk self d)) = snd (snd (QCONSag_build mk (omit_key k self) d))
    \<and> k \<notin> set (snd (snd (QPolySag1D_build recording_cache self [])))"
proof -
  let ?L = "map (\<lambda>t. (t, the (map_of (sag_coefs self) t))) (sort (map fst (sag_coefs self)))"
  have "map_of (sag_coefs self) k = Some 0"
    using assms(1,2) by simp
  then have zero: "\<forall>(t, cf) \<in> set ?L. t = k \<longrightarrow> cf = 0"
    by auto
  have loop: "build_loop call' (sag_samples self) ?L ph c'
      = build_loop call' (sag_samples self)
          (map (\<lambda>t. (t, the (map_of (sag_coefs (omit_key k self)) t))) (sort (map fst (sag_coefs (omit_key k self)))))
          ph c'"
    for call' :: "'x \<Rightarrow> nat \<Rightarrow> nat \<Rightarrow> (error + ndv) \<times> 'x" and ph c'
    unfolding omit_key_def using build_loop_skip [OF zero, of call' "sag_samples self" ph c']
    by (simp add: ordered_items_delete)
  have gen: "fst (QPolySag1D_build call' self c') = fst (QPolySag1D_build call' (omit_key k self) c')
    \<and> sag_phase (fst (snd (QPolySag1D_build call' self c')))
        = sag_phase (fst (snd (QPolySag1D_build call' (omit_key k self) c')))
    \<and> sag_samples (fst (snd (QPolySag1D_build call' self c')))
        = sag_samples (fst (snd (QPolySag1D_build call' (omit_key k self) c')))
    \<and> snd (snd (QPolySag1D_build call' self c')) = snd (snd (QPolySag1D_build call' (omit_key k self) c'))"
    for call' :: "'x \<Rightarrow> nat \<Rightarrow> nat \<Rightarrow> (error + ndv) \<times> 'x" and c'
    unfolding QPolySag1D_build_unfold loop
    by (simp add: case_prod_beta omit_key_def)
  have "set (snd (snd (QPolySag1D_build recording_cache self [])))
      = {t. \<exists>cf. (t, cf) \<in> set ?L \<and> cf \<noteq> 0}"
    unfolding QPolySag1D_build_unfold by (simp add: case_prod_beta build_loop_recording)
  with zero have untouched: "k \<notin> set (snd (snd (QPolySag1D_build recording_cache self [])))"
    by auto
  show ?thesis
    using gen [of call c] gen [of "QBFScache mk" d] gen [of "QCONcache mk" d] untouched
    by (simp add: QBFSSag_build_def QCONSag_build_def case_prod_beta split: option.splits)
qed

theorem build_zero_coefficient_skipped_witness:
  "distinct (map fst [(0 :: nat, 1 :: real), (1, 0)])
   \<and> (1 :: nat, 0 :: real) \<in> set [(0, 1), (1, 0)]
   \<and> snd (snd (QBFSSag_build example_grid
          \<lparr>sag_coefs = [(0, 1), (1, 0)], sag_samples = 3, sag_phase = zeros 3 3\<rparr>
          QBFSCache_init))
      = snd (snd (QBFSSag_build example_grid
          (omit_key 1 \<lparr>sag_coefs = [(0, 1), (1, 0)], sag_samples = 3, sag_phase = zeros 3 3\<rparr>)
          QBFSCache_init))
   \<and> 1 \<notin> set (snd (snd (QPolySag1D_build recording_cache
          \<lparr>sag_coefs = [(0, 1), (1, 0)], sag_samples = 3, sag_phase = zeros 3 3\<rparr> [])))"
  using build_zero_coefficient_skipped
    [of "\<lparr>sag_coefs = [(0, 1), (1, 0)], sag_samples = 3, sag_phase = zeros 3 3\<rparr>" 1
        "QBFScache example_grid" QBFSCache_init example_grid QBFSCache_init]
  by simp

section \<open>The window of the sag builders\<close>

text \<open>
  The Qbfs builder multiplies the accumulated phase by rho^2 (1 - rho^2): in every state
  the Qbfs cache can reach the build raises nothing, and the sag array is 0 at every
  grid point where rho^2 is 0 or 1.
\<close>

lemma build_loop_Array:
  "build_loop call s l (Array ps) c = (err, ph, c') \<Longrightarrow> \<exists>qs. ph = Array qs"
proof (induction l arbitrary: ps c)
  case Nil
  then show ?case by auto
next
  case (Cons x l)
  obtain t cf where x: "x = (t, cf)" by (cases x)
  have arr: "\<exists>qs. Array ps + Scalar cf * q = Array qs" for q
    by (cases q) (simp_all add: plus_ndv_def times_ndv_def)
  show ?case
  proof (cases "cf = 0")
    case True
    with Cons x show ?thesis by simp
  next
    case False
    obtain res c1 where call: "call c t s = (res, c1)" by (cases "call c t s")
    show ?thesis
    proof (cases res)
      case (Inl e)
      with Cons.prems x False call show ?thesis by auto
    next
      case (Inr q)
      obtain qs where "Array ps + Scalar cf * q = Array qs" using arr by blast
      with Cons.prems x False call Inr Cons.IH [of qs c1] show ?thesis by simp
    qed
  qed
qed

lemma build_loop_QBFS_reachable:
  "reachable_QBFS mk c \<Longrightarrow> reachable_QBFS mk (snd (snd (build_loop (QBFScache mk) s l ph c)))"
proof (induction l arbitrary: ph c)
  case Nil
  then show ?case by simp
next
  case (Cons x l)
  obtain t cf where x: "x = (t, cf)" by (cases x)
  have "reachable_QBFS mk (snd (QBFSCache_get_QBFS mk c t s 1))"
    using Cons.prems by (rule QBFS_Q)
  then show ?case
    using Cons.prems Cons.IH
    by (simp add: x QBFScache_def QBFSCache_call_def case_prod_beta)
qed

lemma build_loop_QBFS_no_error:
  "fst (build_loop (QBFScache mk) s l ph c) = None"
  by (induction l arbitrary: ph c) (auto simp: QBFScache_def case_prod_beta)


lemma window_elem:
  assumes "i < length qs" and "i < length rho" and "(rho ! i)\<^sup>2 = 0 \<or> (rho ! i)\<^sup>2 = 1"
  shows "elem (Array qs * (nd_pow (Array rho) 2 * (Scalar 1 - nd_pow (Array rho) 2))) i = 0"
  using assms by (auto simp: times_ndv_def minus_ndv_def)

lemma window_length:
  "Array qs * (nd_pow (Array rho) 2 * (Scalar 1 - nd_pow (Array rho) 2)) = Array ps \<Longrightarrow>
   length ps = min (length qs) (length rho)"
  by (auto simp: times_ndv_def minus_ndv_def)

lemma window_Array:
  "\<exists>ps. Array qs * (nd_pow (Array rho) 2 * (Scalar 1 - nd_pow (Array rho) 2)) = Array ps"
  by (simp add: times_ndv_def minus_ndv_def)

lemma QBFSSag_build_unfold:
  "QBFSSag_build mk self c =
     (case build_loop (QBFScache mk) (sag_samples self)
             (map (\<lambda>k. (k, the (map_of (sag_coefs self) k))) (sort (map fst (sag_coefs self))))
             (zeros (sag_samples self) (sag_samples self)) c of
        (Some e, ph, c1) \<Rightarrow> (Some e, self\<lparr>sag_phase := ph\<rparr>, c1)
      | (None, ph, c1) \<Rightarrow>
          (None,
           self\<lparr>sag_phase :=
             ph * (fst (QBFSCache_get_grid mk c1 (sag_samples self) 1)
                    * (Scalar 1 - fst (QBFSCache_get_grid mk c1 (sag_samples self) 1)))\<rparr>,
           snd (QBFSCache_get_grid mk c1 (sag_samples self) 1)))"
  unfolding QBFSSag_build_def QPolySag1D_build_unfold
  by (simp add: case_prod_beta Let_def split: option.splits)


lemma QBFSSag_build_vanishes:
  assumes "reachable_QBFS mk c"
  shows "fst (QBFSSag_build mk self c) = None
    \<and> (\<exists>ps. sag_phase (fst (snd (QBFSSag_build mk self c))) = Array ps
          \<and> (\<forall>i < length ps. i < length (fst (mk (sag_samples self) 1))
                \<and> ((fst (mk (sag_samples self) 1) ! i)\<^sup>2 = 0
                     \<or> (fst (mk (sag_samples self) 1) ! i)\<^sup>2 = 1 \<longrightarrow> ps ! i = 0)))"
proof -
  let ?s = "sag_samples self"
  let ?rho = "fst (mk ?s 1)"
  let ?L = "map (\<lambda>k. (k, the (map_of (sag_coefs self) k))) (sort (map fst (sag_coefs self)))"
  obtain err ph c1 where loop: "build_loop (QBFScache mk) ?s ?L (zeros ?s ?s) c = (err, ph, c1)"
    by (cases "build_loop (QBFScache mk) ?s ?L (zeros ?s ?s) c")
  have "fst (build_loop (QBFScache mk) ?s ?L (zeros ?s ?s) c) = None"
    by (rule build_loop_QBFS_no_error)
  then have err: "err = None"
    by (simp only: loop fst_conv)
  obtain qs where ph: "ph = Array qs"
    using build_loop_Array [OF loop [unfolded zeros_def]] by (rule exE)
  have "reachable_QBFS mk (snd (snd (build_loop (QBFScache mk) ?s ?L (zeros ?s ?s) c)))"
    using assms by (rule build_loop_QBFS_reachable)
  then have "reachable_QBFS mk c1"
    by (simp only: loop snd_conv)
  then have "cache_inv mk c1"
    by (rule reachable_QBFS_inv)
  then have "grids_QBFS mk c1"
    by (simp only: cache_inv_def)
  then have grid: "fst (QBFSCache_get_grid mk c1 ?s 1) = nd_pow (Array ?rho) 2"
    by (rule QBFS_get_grid_ok(2))
  have build: "QBFSSag_build mk self c =
      (None,
       self\<lparr>sag_phase := Array qs * (nd_pow (Array ?rho) 2 * (Scalar 1 - nd_pow (Array ?rho) 2))\<rparr>,
       snd (QBFSCache_get_grid mk c1 ?s 1))"
    by (simp only: QBFSSag_build_unfold loop err ph grid prod.case option.case)
  obtain ps where ps: "Array qs * (nd_pow (Array ?rho) 2 * (Scalar 1 - nd_pow (Array ?rho) 2)) = Array ps"
    using window_Array by blast
  have "i < length ?rho \<and> ((?rho ! i)\<^sup>2 = 0 \<or> (?rho ! i)\<^sup>2 = 1 \<longrightarrow> ps ! i = 0)"
    if "i < length ps" for i
  proof -
    have "length ps = min (length qs) (length ?rho)"
      using ps by (rule window_length)
    with that have i: "i < length qs" "i < length ?rho"
      by simp_all
    have "(?rho ! i)\<^sup>2 = 0 \<or> (?rho ! i)\<^sup>2 = 1 \<Longrightarrow> elem (Array ps) i = 0"
      unfolding ps [symmetric] by (rule window_elem [OF i])
    then show ?thesis
      using i(2) by simp
  qed
  then have "\<exists>ps'. Array ps = Array ps'
          \<and> (\<forall>i < length ps'. i < length ?rho
                \<and> ((?rho ! i)\<^sup>2 = 0 \<or> (?rho ! i)\<^sup>2 = 1 \<longrightarrow> ps' ! i = 0))"
    by blast
  then show ?thesis
    unfolding build fst_conv snd_conv ps by simp
qed

text \<open>The Qcon builder, evaluated step by step.\<close>

lemma QCON_get_PBFS_hit:
  "map_of (Ps c) (m, s, r) = Some p \<Longrightarrow> QCONCache_get_PBFS mk c m s r = (p, c)"
  by (subst QCONCache_get_PBFS.simps) (simp add: make_key_def)

lemma QCON_get_PBFS_low:
  "map_of (Ps c) (m, s, r) = None \<Longrightarrow> \<not> 2 < m \<Longrightarrow>
   QCONCache_get_PBFS mk c m s r =
     (case QCONCache_get_grid mk c s r of (rho, c1) \<Rightarrow>
        (qbfs_recurrence_P m rho None None None,
         c1\<lparr>Ps := AList.update (m, s, r) (qbfs_recurrence_P m rho None None None) (Ps c1)\<rparr>))"
  by (subst QCONCache_get_PBFS.simps) (simp add: make_key_def Let_def)

text \<open>
  Claim C3. Both sag builders are meant to multiply the accumulated phase by the window
  rho^2 (1 - rho^2), so that the sag is 0 where rho^2 is 0 or 1. The Qbfs builder does
  (lemma \<open>QBFSSag_build_vanishes\<close>). The Qcon builder takes the cached grid of the Qcon
  cache, which is 2 rho^2 - 1, for rho^2: with the single coefficient A0 = 1 on the
  example grid the build succeeds and the sag at the centre of the aperture, where
  rho^2 = 0, is -2.
\<close>

theorem QCONSag_build_centre_not_zero:
  "fst (QCONSag_build example_grid
          \<lparr>sag_coefs = [(0, 1)], sag_samples = 3, sag_phase = zeros 3 3\<rparr> QCONCache_init) = None
   \<and> sag_phase (fst (snd (QCONSag_build example_grid
          \<lparr>sag_coefs = [(0, 1)], sag_samples = 3, sag_phase = zeros 3 3\<rparr> QCONCache_init)))
       = Array [- 6, 0, - 6, 0, - 2, 0, - 6, 0, - 6]
   \<and> map (\<lambda>rho. rho\<^sup>2) (fst (example_grid 3 1)) = [2, 1, 2, 1, 0, 1, 2, 1, 2]"
  by (simp add: QCONSag_build_def QPolySag1D_build_def QCONcache_def QCONCache_call_def
      QCONCache_get_QCON_def QCON_get_PBFS_low QCON_get_PBFS_hit QCONCache_get_grid_def
      QCONCache_init_def example_grid_def make_key_def Let_def zeros_def
      minus_ndv_def times_ndv_def divide_ndv_def plus_ndv_def numeral_2_eq_2 power2_eq_square
      eval_nat_numeral)

section \<open>The byte-size diagnostic against the cached arrays\<close>

text \<open>
  Claim C10. The byte size is meant to be the sum of the footprints of every cached
  array, each counted once. \<^verbatim>\<open>nbytes\<close> walks the keys of \<^verbatim>\<open>Qs\<close> only and adds, for each,
  the Q array, the P array and the grid of that key: a grid shared by several orders is
  counted once per order. After \<^verbatim>\<open>get_QBFS(1, 3)\<close> and \<^verbatim>\<open>get_QBFS(2, 3)\<close> on a fresh cache
  five arrays of nine 8-byte elements are cached (360 bytes) and \<^verbatim>\<open>nbytes\<close> is 432. After
  \<^verbatim>\<open>get_QBFS(0, 3)\<close> the P store holds the \<^verbatim>\<open>int\<close> 2 and \<^verbatim>\<open>nbytes\<close> raises
  \<^verbatim>\<open>AttributeError\<close>.
\<close>

theorem QBFSCache_nbytes_counts_grid_per_order:
  "QBFSCache_nbytes 8
      (snd (QBFSCache_get_QBFS example_grid
              (snd (QBFSCache_get_QBFS example_grid QBFSCache_init 1 3 1)) 2 3 1)) = Inr 432
   \<and> byte_size_spec 8
      (snd (QBFSCache_get_QBFS example_grid
              (snd (QBFSCache_get_QBFS example_grid QBFSCache_init 1 3 1)) 2 3 1)) = 360
   \<and> QBFSCache_nbytes 8 (snd (QBFSCache_get_QBFS example_grid QBFSCache_init 0 3 1))
       = Inl AttributeError"
  by (simp add: QBFS_get_QBFS_low QBFS_get_QBFS_hit QBFS_get_PBFS_low QBFS_get_PBFS_hit
      QBFSCache_init_def QBFSCache_get_grid_def example_grid_def make_key_def Let_def
      minus_ndv_def times_ndv_def divide_ndv_def plus_ndv_def numeral_2_eq_2
      QBFSCache_nbytes_def byte_size_spec_def
      del: g_qbfs.simps h_qbfs.simps f_qbfs.simps)

end
